theory Spec2Isabelle
  imports Main "HOL-Library.Sublist" "HOL-Library.AList"
begin

section \<open>Values exchanged with the device client\<close>

text \<open>
  The responses of the LuCI client are decoded JSON. They are modelled by the Python values
  the checker inspects: \<open>None\<close>, booleans, integers, strings, lists and dictionaries
  (a dictionary as the list of its items, in insertion order). Strings are sequences of
  8-bit characters; floating-point numbers are left out.
\<close>

datatype pyval =
    PNone
  | PBool bool
  | PInt int
  | PStr string
  | PList "pyval list"
  | PDict "(string \<times> pyval) list"

text \<open>
  Modelled from the spec: the exception classes of \<open>exceptions.py\<close>, which is not among the
  sources. \<open>LuciConnectionError\<close> is the connection-level error and a subclass of
  \<open>LuciError\<close>; the constructor \<open>LuciError\<close> stands for a protocol-level error, that is
  a \<open>LuciError\<close> that is not a \<open>LuciConnectionError\<close>. Both are ordinary exceptions.
  \<open>OtherException\<close> is any other subclass of \<open>Exception\<close>; \<open>NonException\<close> is a
  \<open>BaseException\<close> outside \<open>Exception\<close> (a cancelled task, an interrupt).
\<close>

datatype exc =
    LuciConnectionError
  | LuciError
  | KeyError
  | ValueError
  | AttributeError
  | OtherException
  | NonException

datatype 'a outcome = Returns 'a | Raises exc

definition is_LuciError :: "exc \<Rightarrow> bool" where
  "is_LuciError e = (e = LuciConnectionError \<or> e = LuciError)"

definition is_Exception :: "exc \<Rightarrow> bool" where
  "is_Exception e = (e \<noteq> NonException)"

definition isinstance_dict :: "pyval \<Rightarrow> bool" where
  "isinstance_dict v = (case v of PDict _ \<Rightarrow> True | _ \<Rightarrow> False)"

text \<open>Python truthiness, as used by the \<open>or\<close> of the mode extraction.\<close>

definition truthy :: "pyval \<Rightarrow> bool" where
  "truthy v = (case v of
       PNone \<Rightarrow> False
     | PBool b \<Rightarrow> b
     | PInt n \<Rightarrow> n \<noteq> 0
     | PStr s \<Rightarrow> s \<noteq> []
     | PList xs \<Rightarrow> xs \<noteq> []
     | PDict kvs \<Rightarrow> kvs \<noteq> [])"

text \<open>\<open>d.get(key)\<close> and \<open>d.get(key, default)\<close> on the items of a dictionary.\<close>

definition dict_get :: "(string \<times> pyval) list \<Rightarrow> string \<Rightarrow> pyval \<Rightarrow> pyval" where
  "dict_get kvs key dflt = (case map_of kvs key of None \<Rightarrow> dflt | Some v \<Rightarrow> v)"

subsection \<open>\<open>str(...)\<close> and \<open>.lower()\<close>\<close>

fun digits_of :: "nat \<Rightarrow> string" where
  "digits_of n =
     (if n < 10 then [char_of (48 + n)]
      else digits_of (n div 10) @ [char_of (48 + n mod 10)])"

declare digits_of.simps [simp del]

definition str_of_int :: "int \<Rightarrow> string" where
  "str_of_int i = (if i < 0 then CHR ''-'' # digits_of (nat (- i)) else digits_of (nat i))"

text \<open>
  \<open>str(v)\<close>. For a list or a dictionary only the opening bracket of the rendering is kept:
  it is enough to tell the rendering from every key of the mode table, which is all the
  checker does with it.
\<close>

fun py_str :: "pyval \<Rightarrow> string" where
  "py_str PNone = ''None''"
| "py_str (PBool b) = (if b then ''True'' else ''False'')"
| "py_str (PInt i) = str_of_int i"
| "py_str (PStr s) = s"
| "py_str (PList xs) = ''[''"
| "py_str (PDict kvs) = ''{''"

definition lower_char :: "char \<Rightarrow> char" where
  "lower_char c =
     (let n = (of_char c :: nat) in if 65 \<le> n \<and> n \<le> 90 then char_of (n + 32) else c)"

definition lower :: "string \<Rightarrow> string" where
  "lower s = map lower_char s"

definition upper_char :: "char \<Rightarrow> char" where
  "upper_char c =
     (let n = (of_char c :: nat) in if 97 \<le> n \<and> n \<le> 122 then char_of (n - 32) else c)"

definition upper :: "string \<Rightarrow> string" where
  "upper s = map upper_char s"

section \<open>The compatibility checker (\<open>compatibility.py\<close>)\<close>

text \<open>The members of the \<open>Mode\<close> enumeration that the checker names.\<close>

datatype Mode = DEFAULT | ACCESS_POINT | REPEATER | MESH | MESH_LEAF | MESH_NODE

text \<open>
  A member of the \<open>Model\<close> enumeration, identified by its name: \<open>Model ''R3''\<close> is
  \<open>Model.R3\<close>. The declaration of the enumeration (\<open>enum.py\<close>) is not among the sources,
  so what it fixes is a parameter of the functions that use it: the lookup of a member by
  value, \<open>Model(value)\<close>, where \<open>None\<close> is its \<open>ValueError\<close>, and the names that are
  declared, outside of which \<open>Model[name]\<close> raises \<open>KeyError\<close>. Every member is taken to be
  truthy.
\<close>

datatype Model = Model (name: string)

text \<open>
  The calls the checker makes on its client, each with the arguments the checker gives it:
  \<open>mode()\<close>, \<open>init_info()\<close>, \<open>set_mac_filter("00:00:00:00:00:00", True)\<close>,
  \<open>macfilter_info()\<close>, \<open>qos_info()\<close>, \<open>rom_update()\<close>, \<open>flash_permission()\<close>, \<open>led()\<close>,
  \<open>set_guest_wifi({})\<close>, \<open>set_wifi({})\<close>, \<open>device_list()\<close>, \<open>topo_graph()\<close> and
  \<open>portforward(ftype=1)\<close>.
\<close>

datatype endpoint =
    Mode_query
  | Init_info
  | Set_mac_filter
  | Macfilter_info
  | Qos_info
  | Rom_update
  | Flash_permission
  | Led
  | Set_guest_wifi
  | Set_wifi
  | Device_list
  | Topo_graph
  | Portforward

text \<open>
  The client is the device behind it: a call reads and changes the state \<open>'w\<close> of the
  outside world and returns a value or raises.
\<close>

type_synonym 'w client = "endpoint \<Rightarrow> 'w \<Rightarrow> pyval outcome \<times> 'w"

text \<open>
  What a run leaves behind besides its result: the client calls, the one-second pauses and
  the log lines, in the order they happen.
\<close>

datatype level = Debug | Warning

datatype event = Called endpoint | Slept | Logged level string

text \<open>
  The fields of a \<open>CompatibilityChecker\<close>, with the outside world and the trace of events.
  A value of the result dictionary is \<open>True\<close>, \<open>False\<close> or \<open>None\<close>
  (\<open>dict[str, bool | None]\<close>): \<open>Some True\<close>, \<open>Some False\<close>, \<open>None\<close>.
\<close>

record 'w checker =
  world :: 'w
  trace :: "event list"
  result :: "string \<rightharpoonup> bool option"
  mode :: "Mode option"
  model :: "Model option"
  silent_mode :: bool
  max_retries :: int

text \<open>\<open>CompatibilityChecker.__init__\<close>\<close>

definition init_checker :: "'w \<Rightarrow> int \<Rightarrow> 'w checker" where
  "init_checker w mr =
     \<lparr> world = w, trace = [], result = Map.empty, mode = None, model = None,
       silent_mode = False, max_retries = mr \<rparr>"

definition emit :: "event \<Rightarrow> 'w checker \<Rightarrow> 'w checker" where
  "emit e s = s\<lparr>trace := trace s @ [e]\<rparr>"

definition call :: "'w client \<Rightarrow> endpoint \<Rightarrow> 'w checker \<Rightarrow> pyval outcome \<times> 'w checker" where
  "call client m s =
     (case client m (world s) of (out, w') \<Rightarrow> (out, emit (Called m) (s\<lparr>world := w'\<rparr>)))"

text \<open>
  \<open>_safe_call\<close>: the loop over \<open>range(1, self.max_retries + 1)\<close> is a recursion over the
  list of attempt numbers. The three handlers differ only in the text they log.
\<close>

fun safe_call_attempts ::
  "('w checker \<Rightarrow> pyval outcome \<times> 'w checker) \<Rightarrow> string \<Rightarrow> int list \<Rightarrow> 'w checker
     \<Rightarrow> (exc + bool) \<times> 'w checker" where
  "safe_call_attempts func nm [] s = (Inr False, s)"
| "safe_call_attempts func nm (attempt # rest) s =
     (case func s of
        (Returns resp, s1) \<Rightarrow>
          if isinstance_dict resp \<or> resp = PBool True then (Inr True, s1)
          else safe_call_attempts func nm rest (emit Slept s1)
      | (Raises e, s1) \<Rightarrow>
          if is_LuciError e \<or> is_Exception e
          then safe_call_attempts func nm rest (emit Slept (emit (Logged Debug nm) s1))
          else (Inl e, s1))"

definition safe_call ::
  "('w checker \<Rightarrow> pyval outcome \<times> 'w checker) \<Rightarrow> string \<Rightarrow> 'w checker
     \<Rightarrow> (exc + bool) \<times> 'w checker" where
  "safe_call func nm s = safe_call_attempts func nm [1 .. max_retries s] s"

text \<open>Counting in the trace.\<close>

definition calls_of :: "endpoint \<Rightarrow> 'w checker \<Rightarrow> nat" where
  "calls_of m s = count_list (trace s) (Called m)"

definition pauses :: "'w checker \<Rightarrow> nat" where
  "pauses s = count_list (trace s) Slept"

text \<open>
  The outcome of the \<open>i\<close>-th successive invocation (from 0) of an operation of the client,
  started in world \<open>w\<close>.
\<close>

fun world_after :: "('w \<Rightarrow> pyval outcome \<times> 'w) \<Rightarrow> 'w \<Rightarrow> nat \<Rightarrow> 'w" where
  "world_after op w 0 = w"
| "world_after op w (Suc i) = world_after op (snd (op w)) i"

definition outcome_at :: "('w \<Rightarrow> pyval outcome \<times> 'w) \<Rightarrow> 'w \<Rightarrow> nat \<Rightarrow> pyval outcome" where
  "outcome_at op w i = fst (op (world_after op w i))"

text \<open>An attempt succeeds when it returns a dictionary or \<open>True\<close>.\<close>

definition succeeds :: "pyval outcome \<Rightarrow> bool" where
  "succeeds out = (case out of Returns resp \<Rightarrow> isinstance_dict resp \<or> resp = PBool True | Raises e \<Rightarrow> False)"

text \<open>
  An attempt fails when it returns anything else or raises an exception
  (connection-level, protocol-level or any other \<open>Exception\<close>).
\<close>

definition fails :: "pyval outcome \<Rightarrow> bool" where
  "fails out = (case out of Returns resp \<Rightarrow> \<not> (isinstance_dict resp \<or> resp = PBool True) | Raises e \<Rightarrow> is_LuciError e \<or> is_Exception e)"

section \<open>The registry of unsupported features (\<open>unsupported.py\<close>)\<close>

text \<open>
  A table \<open>dict[str, list[Model]]\<close> is the list of its items in insertion order. Its values
  are lists of members of \<open>Model\<close>, as the annotation of the table says.
\<close>

type_synonym registry = "(string \<times> Model list) list"

text \<open>\<open>table.get(feature, [])\<close>\<close>

definition models_for :: "registry \<Rightarrow> string \<Rightarrow> Model list" where
  "models_for table feature = (case map_of table feature of None \<Rightarrow> [] | Some ms \<Rightarrow> ms)"

definition UNSUPPORTED :: registry where
  "UNSUPPORTED =
     [(''new_status'',
        [Model ''R1D'', Model ''R2D'', Model ''R1CM'', Model ''R1CL'', Model ''R3P'',
         Model ''R3D'', Model ''R3L'', Model ''R3A'', Model ''R3'', Model ''R3G'',
         Model ''R4'', Model ''R4A'', Model ''R4AC'', Model ''R4C'', Model ''R4CM'',
         Model ''D01'', Model ''RN06'']),
      (''wifi_config'', [Model ''CR8806'']),
      (''mac_filter'', [Model ''RM1800'']),
      (''mac_filter_info'', []),
      (''qos_info'', []),
      (''vpn_control'', [])]"

text \<open>
  The file \<open>unsupported_user.py\<close>, when it exists, is Python source. What the two functions
  that load it can observe is whether it gets at \<open>Model\<close> by the relative import
  \<open>from .enum import Model\<close>, and what executing the rest of it gives: an exception, a module
  without the attribute \<open>UNSUPPORTED\<close>, one where the attribute is not a dictionary, or one
  where it is the given table.
\<close>

datatype module_body =
    Exec_raises
  | No_attribute
  | Not_a_dict
  | Dict registry

record user_source =
  relative_import :: bool
  body :: module_body

type_synonym user_file = "user_source option"

text \<open>
  The module name a loader gives to \<open>spec_from_file_location\<close>: \<open>unsupported_user\<close> in
  \<open>get_combined_unsupported\<close>, \<open>custom_components.miwifi.unsupported_user\<close> in the service.
  A module loaded under a name without a dot has no parent package (its \<open>__package__\<close> is the
  empty string), and a relative import executed in it raises \<open>ImportError\<close> (attempted
  relative import with no known parent package); under the dotted name the import is
  resolved in the package \<open>custom_components.miwifi\<close>.
\<close>

datatype load_name = Top_level_name | Package_member_name

definition exec_module :: "load_name \<Rightarrow> user_source \<Rightarrow> module_body" where
  "exec_module nm src =
     (if relative_import src \<and> nm = Top_level_name then Exec_raises else body src)"

text \<open>The inner loop of the merge: \<open>for model in value: if model not in combined[key]: ...append(model)\<close>\<close>

fun merge_models :: "Model list \<Rightarrow> Model list \<Rightarrow> Model list" where
  "merge_models acc [] = acc"
| "merge_models acc (m # ms) = merge_models (if m \<in> set acc then acc else acc @ [m]) ms"

text \<open>The outer loop: \<open>for key, value in user_data.items()\<close>\<close>

fun merge_user :: "registry \<Rightarrow> registry \<Rightarrow> registry" where
  "merge_user combined [] = combined"
| "merge_user combined ((key, val) # rest) =
     (let combined1 = (if map_of combined key = None then AList.update key [] combined
                       else combined);
          combined2 = AList.update key (merge_models (models_for combined1 key) val) combined1
      in merge_user combined2 rest)"

text \<open>
  \<open>get_combined_unsupported\<close>, with the built-in table (the module's global) as its first
  argument. It returns the combined table and the lines it logs. In
  \<open>is_feature_unsupported\<close> the model is a member of \<open>Model\<close>, as are the entries of the
  lists it is looked up in.
\<close>

definition get_combined_unsupported :: "registry \<Rightarrow> user_file \<Rightarrow> registry \<times> event list" where
  "get_combined_unsupported builtin uf =
     (let combined = builtin in
      case uf of
        None \<Rightarrow> (combined, [])
      | Some src \<Rightarrow>
          (case exec_module Top_level_name src of
             Exec_raises \<Rightarrow> (combined, [Logged Debug ''Error loading unsupported_user.py''])
           | No_attribute \<Rightarrow> (merge_user combined [], [])
           | Not_a_dict \<Rightarrow> (combined, [])
           | Dict user_data \<Rightarrow> (merge_user combined user_data, [])))"

definition is_feature_unsupported :: "registry \<Rightarrow> user_file \<Rightarrow> string \<Rightarrow> Model \<Rightarrow> bool" where
  "is_feature_unsupported builtin uf feature md =
     (let unsupported = fst (get_combined_unsupported builtin uf)
      in md \<in> set (models_for unsupported feature))"

text \<open>
  The user-override layer: the table the user file holds, whichever way the file is loaded;
  empty when there is no file or the file holds no table.
\<close>

definition override_layer :: "user_file \<Rightarrow> registry" where
  "override_layer uf =
     (case uf of
        None \<Rightarrow> []
      | Some src \<Rightarrow> (case body src of Dict user_data \<Rightarrow> user_data | _ \<Rightarrow> []))"

section \<open>The service that adds an unsupported pair (\<open>services.py\<close>)\<close>

text \<open>What a call of \<open>MiWifiAddUnsupportedService.async_call_service\<close> reports.\<close>

datatype add_report =
    Missing_argument
  | Invalid_model
  | Write_failed
  | Added
  | Already_exists

text \<open>
  The text the service writes is \<open>from .enum import Model\<close> followed by the literal of the
  table, each key between double quotes as it is, without escaping. A key that holds a
  double quote or a line break makes the text a syntax error; a key that holds a backslash
  starts an escape in the literal and is treated the same way. Executing the text then
  raises; otherwise it gives the table.
\<close>

definition literal_safe :: "string \<Rightarrow> bool" where
  "literal_safe k = (\<forall>c \<in> set k. c \<notin> {CHR 0x22, CHR 0x5C, CHR 0x0A, CHR 0x0D})"

definition written_source :: "registry \<Rightarrow> user_source" where
  "written_source table =
     \<lparr> relative_import = True,
       body = (if \<forall>k \<in> fst ` set table. literal_safe k then Dict table else Exec_raises) \<rparr>"

text \<open>
  \<open>async_call_service\<close>. \<open>declared\<close> tells the names of the members of \<open>Model\<close>
  (\<open>Model[name]\<close> raises \<open>KeyError\<close> on any other name), \<open>writable\<close> whether the file can be
  written; a failed write is taken to leave the file as it was.
\<close>

definition async_call_service ::
  "(string \<Rightarrow> bool) \<Rightarrow> registry \<Rightarrow> bool \<Rightarrow> string \<Rightarrow> string \<Rightarrow> user_file
     \<Rightarrow> add_report \<times> user_file" where
  "async_call_service declared builtin writable feature model_name uf =
     (if feature = [] \<or> model_name = [] then (Missing_argument, uf)
      else if \<not> declared (upper model_name) then (Invalid_model, uf)
      else
        let model_enum = Model (upper model_name);
            user_data =
              (case uf of
                 None \<Rightarrow> []
               | Some src \<Rightarrow>
                   (case exec_module Package_member_name src of
                      Dict d \<Rightarrow> d
                    | _ \<Rightarrow> []));
            already_exists =
              ((map_of user_data feature \<noteq> None \<and> model_enum \<in> set (models_for user_data feature))
               \<or> (map_of builtin feature \<noteq> None \<and> model_enum \<in> set (models_for builtin feature)))
        in
          if \<not> already_exists then
            let user_data1 = (if map_of user_data feature = None
                              then AList.update feature [] user_data else user_data);
                user_data2 = AList.update feature (models_for user_data1 feature @ [model_enum])
                               user_data1
            in if writable
               then (Added, Some (written_source user_data2))
               else (Write_failed, uf)
          else (Already_exists, uf))"

text \<open>The members of \<open>Model\<close> that the sources name.\<close>

definition named_in_sources :: "string \<Rightarrow> bool" where
  "named_in_sources n = (Model n \<in> set (concat (map snd UNSUPPORTED)))"

section \<open>The probe run (\<open>CompatibilityChecker.run\<close>)\<close>

definition MODE_MAP :: "(string \<times> Mode) list" where
  "MODE_MAP =
     [(''repeater'', REPEATER),
      (''access_point'', ACCESS_POINT),
      (''ap'', ACCESS_POINT),
      (''mesh'', MESH),
      (''router'', DEFAULT),
      (''default'', DEFAULT),
      (''8'', MESH_LEAF),
      (''3'', MESH_NODE)]"

text \<open>
  From the raw response to the mode: an object gives its \<open>netmode\<close>, or else its \<open>mode\<close>,
  or else \<open>"default"\<close>; the table is read at \<open>str(raw_mode).lower()\<close>.
\<close>

definition extract_raw_mode :: "pyval \<Rightarrow> pyval" where
  "extract_raw_mode raw_mode =
     (case raw_mode of
        PDict kvs \<Rightarrow>
          (let netmode = dict_get kvs ''netmode'' PNone
           in if truthy netmode then netmode else dict_get kvs ''mode'' (PStr ''default''))
      | _ \<Rightarrow> raw_mode)"

definition parse_mode :: "pyval \<Rightarrow> Mode" where
  "parse_mode raw_mode =
     (case map_of MODE_MAP (lower (py_str (extract_raw_mode raw_mode))) of
        None \<Rightarrow> DEFAULT
      | Some md \<Rightarrow> md)"

text \<open>The first \<open>try\<close> block of \<open>run\<close>.\<close>

definition detect_mode :: "'w client \<Rightarrow> 'w checker \<Rightarrow> (exc + unit) \<times> 'w checker" where
  "detect_mode client s =
     (case call client Mode_query s of
        (Returns raw_mode, s1) \<Rightarrow>
          (Inr (),
           emit (Logged Debug ''Parsed mode'')
             ((emit (Logged Debug ''Raw mode response from client'') s1)
                \<lparr>mode := Some (parse_mode raw_mode)\<rparr>))
      | (Raises e, s1) \<Rightarrow>
          if is_LuciError e \<or> e = KeyError \<or> e = ValueError \<or> e = AttributeError
          then (Inr (), (emit (Logged Debug ''Could not detect mode'') s1)\<lparr>mode := None\<rparr>)
          else (Inl e, s1))"

text \<open>
  The second \<open>try\<close> block. Inside it \<open>"hardware" in info\<close>, \<open>info["hardware"]\<close>, \<open>.lower()\<close>
  and \<open>Model(...)\<close> can each raise; every \<open>Exception\<close> ends in the handler, which logs and
  clears the model. When the key is absent nothing is assigned.
\<close>

definition model_failed :: "'w checker \<Rightarrow> (exc + unit) \<times> 'w checker" where
  "model_failed s = (Inr (), (emit (Logged Debug ''Could not detect model'') s)\<lparr>model := None\<rparr>)"

definition detect_model ::
  "(string \<Rightarrow> Model option) \<Rightarrow> 'w client \<Rightarrow> 'w checker \<Rightarrow> (exc + unit) \<times> 'w checker" where
  "detect_model model_of_value client s =
     (case call client Init_info s of
        (Returns info, s1) \<Rightarrow>
          (case info of
             PDict kvs \<Rightarrow>
               (case map_of kvs ''hardware'' of
                  None \<Rightarrow> (Inr (), s1)
                | Some (PStr hw) \<Rightarrow>
                    (case model_of_value (lower hw) of
                       Some md \<Rightarrow> (Inr (), s1\<lparr>model := Some md\<rparr>)
                     | None \<Rightarrow> model_failed s1)
                | Some _ \<Rightarrow> model_failed s1)
           | PStr txt \<Rightarrow> if sublist ''hardware'' txt then model_failed s1 else (Inr (), s1)
           | PList xs \<Rightarrow> if PStr ''hardware'' \<in> set xs then model_failed s1 else (Inr (), s1)
           | _ \<Rightarrow> model_failed s1)
      | (Raises e, s1) \<Rightarrow> if is_Exception e then model_failed s1 else (Inl e, s1))"

text \<open>The catalogue \<open>features\<close>, in its order.\<close>

definition features :: "(string \<times> endpoint) list" where
  "features =
     [(''mac_filter'', Set_mac_filter),
      (''mac_filter_info'', Macfilter_info),
      (''per_device_qos'', Qos_info),
      (''rom_update'', Rom_update),
      (''flash_permission'', Flash_permission),
      (''led_control'', Led),
      (''guest_wifi'', Set_guest_wifi),
      (''wifi_config'', Set_wifi),
      (''device_list'', Device_list),
      (''topo_graph'', Topo_graph),
      (''portforward'', Portforward)]"

text \<open>\<open>self.model and self.model in unsupported_models\<close>\<close>

definition predefined_unsupported :: "Model option \<Rightarrow> registry \<Rightarrow> string \<Rightarrow> bool" where
  "predefined_unsupported mdl combined feature =
     (case mdl of None \<Rightarrow> False | Some md \<Rightarrow> md \<in> set (models_for combined feature))"

text \<open>The loop \<open>for feature, func in features.items()\<close>.\<close>

fun check_features ::
  "'w client \<Rightarrow> registry \<Rightarrow> (string \<times> endpoint) list \<Rightarrow> 'w checker \<Rightarrow> (exc + unit) \<times> 'w checker" where
  "check_features client combined [] s = (Inr (), s)"
| "check_features client combined ((feature, m) # rest) s =
     (if predefined_unsupported (model s) combined feature
      then check_features client combined rest (emit (Logged Debug feature) s)
      else
        (case safe_call (call client m) feature s of
           (Inl e, s1) \<Rightarrow> (Inl e, s1)
         | (Inr supported, s1) \<Rightarrow>
             let s2 = s1\<lparr>result := (result s1)(feature \<mapsto> Some supported)\<rparr>;
                 s3 = (if supported = False \<and> \<not> silent_mode s2
                       then emit (Logged Warning ''Please add it to unsupported.py'')
                              (emit (Logged Warning feature) s2)
                       else s2)
             in check_features client combined rest s3))"

text \<open>
  \<open>run\<close>. \<open>model_of_value\<close> is \<open>Model(value)\<close>, \<open>uf\<close> the user file at the time of the run.
\<close>

definition run ::
  "(string \<Rightarrow> Model option) \<Rightarrow> 'w client \<Rightarrow> user_file \<Rightarrow> 'w checker
     \<Rightarrow> (exc + (string \<rightharpoonup> bool option)) \<times> 'w checker" where
  "run model_of_value client uf s =
     (case detect_mode client s of
        (Inl e, s1) \<Rightarrow> (Inl e, s1)
      | (Inr _, s1) \<Rightarrow>
          (case detect_model model_of_value client s1 of
             (Inl e, s2) \<Rightarrow> (Inl e, s2)
           | (Inr _, s2) \<Rightarrow>
               (case get_combined_unsupported UNSUPPORTED uf of
                  (combined_unsupported, logged) \<Rightarrow>
                    (case check_features client combined_unsupported features
                            (s2\<lparr>trace := trace s2 @ logged\<rparr>) of
                       (Inl e, s3) \<Rightarrow> (Inl e, s3)
                     | (Inr _, s3) \<Rightarrow> (Inr (result s3), s3)))))"

text \<open>
  \<open>_check_qos_info\<close> and \<open>_check_rom_update\<close>, the two methods of the checker that look at
  the mode. \<open>run\<close> does not call them.
\<close>

definition mode_sensitive_modes :: "Mode set" where
  "mode_sensitive_modes = {REPEATER, ACCESS_POINT, MESH, MESH_LEAF, MESH_NODE}"

definition check_by_mode :: "'w client \<Rightarrow> endpoint \<Rightarrow> 'w checker \<Rightarrow> (exc + bool option) \<times> 'w checker" where
  "check_by_mode client m s =
     (if (case mode s of None \<Rightarrow> False | Some md \<Rightarrow> md \<in> mode_sensitive_modes)
      then (Inr None, s)
      else
        (case call client m s of
           (Returns _, s1) \<Rightarrow> (Inr (Some True), s1)
         | (Raises e, s1) \<Rightarrow> if is_LuciError e then (Inr (Some False), s1) else (Inl e, s1)))"

definition check_qos_info :: "'w client \<Rightarrow> 'w checker \<Rightarrow> (exc + bool option) \<times> 'w checker" where
  "check_qos_info client s = check_by_mode client Qos_info s"

definition check_rom_update :: "'w client \<Rightarrow> 'w checker \<Rightarrow> (exc + bool option) \<times> 'w checker" where
  "check_rom_update client s = check_by_mode client Rom_update s"

section \<open>Discovery (\<open>discovery.py\<close>)\<close>

text \<open>
  The topology response as the discovery reads it: \<open>response["graph"]\<close> with its \<open>ip\<close> and
  its \<open>leafs\<close>, and each leaf with its \<open>ip\<close>, \<open>hardware\<close> and \<open>leafs\<close>. Every key may be
  absent (\<open>None\<close>); a present \<open>ip\<close> or \<open>hardware\<close> is a string and a present \<open>leafs\<close> a list of
  leaves.
\<close>

datatype leaf = Leaf (leaf_ip: "string option") (leaf_hardware: "string option")
  (leaf_leafs: "leaf list option")

datatype graph = Graph (graph_ip: "string option") (graph_leafs: "leaf list option")

datatype response = Response (response_graph: "graph option")

text \<open>
  \<open>LuciClient(client, address[, timeout]).topo_graph()\<close>: the network answers a query to an
  address, under the default timeout or the short one of the liveness check.
\<close>

datatype timeout = Default_timeout | Check_timeout

type_synonym 'w luci = "string \<Rightarrow> timeout \<Rightarrow> 'w \<Rightarrow> response outcome \<times> 'w"

datatype net_event = Queried string timeout | Found "string list"

record 'w net =
  net_world :: 'w
  net_trace :: "net_event list"

definition init_net :: "'w \<Rightarrow> 'w net" where
  "init_net w = \<lparr> net_world = w, net_trace = [] \<rparr>"

definition topo_graph :: "'w luci \<Rightarrow> string \<Rightarrow> timeout \<Rightarrow> 'w net \<Rightarrow> response outcome \<times> 'w net" where
  "topo_graph luci address t s =
     (case luci address t (net_world s) of
        (out, w') \<Rightarrow> (out, \<lparr> net_world = w', net_trace = net_trace s @ [Queried address t] \<rparr>))"

text \<open>\<open>str.strip()\<close>: the white space of Python among the 8-bit characters.\<close>

definition is_space :: "char \<Rightarrow> bool" where
  "is_space c = ((of_char c :: nat) \<in> {9, 10, 11, 12, 13, 28, 29, 30, 31, 32, 133, 160})"

definition strip :: "string \<Rightarrow> string" where
  "strip s = rev (dropWhile is_space (rev (dropWhile is_space s)))"

definition async_check_ip_address :: "'w luci \<Rightarrow> string \<Rightarrow> 'w net \<Rightarrow> (exc + bool) \<times> 'w net" where
  "async_check_ip_address luci ip_address s =
     (case topo_graph luci ip_address Check_timeout s of
        (Returns _, s1) \<Rightarrow> (Inr True, s1)
      | (Raises e, s1) \<Rightarrow>
          if e = LuciConnectionError then (Inr False, s1)
          else if is_LuciError e then (Inr True, s1)
          else (Inl e, s1))"

text \<open>The test that skips a leaf.\<close>

definition leaf_skipped :: "string option \<Rightarrow> string option \<Rightarrow> bool" where
  "leaf_skipped ip hw =
     (case ip of
        None \<Rightarrow> True
      | Some a \<Rightarrow> length a = 0 \<or> (case hw of None \<Rightarrow> True | Some h \<Rightarrow> length h = 0))"

fun async_prepare_leafs ::
  "'w luci \<Rightarrow> string list \<Rightarrow> leaf list \<Rightarrow> 'w net \<Rightarrow> (exc + string list) \<times> 'w net" where
  "async_prepare_leafs luci devices [] s = (Inr devices, s)"
| "async_prepare_leafs luci devices (Leaf ip hw sub # rest) s =
     (if leaf_skipped ip hw then async_prepare_leafs luci devices rest s
      else
        (case async_check_ip_address luci (strip (the ip)) s of
           (Inl e, s1) \<Rightarrow> (Inl e, s1)
         | (Inr alive, s1) \<Rightarrow>
             (let devices1 = (if alive then devices @ [strip (the ip)] else devices)
              in case sub of
                   None \<Rightarrow> async_prepare_leafs luci devices1 rest s1
                 | Some [] \<Rightarrow> async_prepare_leafs luci devices1 rest s1
                 | Some (c # cs) \<Rightarrow>
                     (case async_prepare_leafs luci devices1 (c # cs) s1 of
                        (Inl e, s2) \<Rightarrow> (Inl e, s2)
                      | (Inr devices2, s2) \<Rightarrow> async_prepare_leafs luci devices2 rest s2))))"

text \<open>
  The loop over the candidate addresses: the first query that does not raise a \<open>LuciError\<close>
  gives the response; \<open>response\<close> stays \<open>{}\<close> when every query raises one.
\<close>

fun root_response :: "'w luci \<Rightarrow> string list \<Rightarrow> 'w net \<Rightarrow> (exc + response) \<times> 'w net" where
  "root_response luci [] s = (Inr (Response None), s)"
| "root_response luci (address # rest) s =
     (case topo_graph luci address Default_timeout s of
        (Returns response, s1) \<Rightarrow> (Inr response, s1)
      | (Raises e, s1) \<Rightarrow> if is_LuciError e then root_response luci rest s1 else (Inl e, s1))"

text \<open>
  \<open>async_discover_devices\<close>. The candidate addresses \<open>CLIENT_ADDRESS\<close>, \<open>CLIENT_ADDRESS_IP\<close>
  and \<open>CLIENT_ADDRESS_DEFAULT\<close> are constants of \<open>const.py\<close>, which is not among the sources;
  they are the argument \<open>addresses\<close>.
\<close>

definition found :: "string list \<Rightarrow> 'w net \<Rightarrow> (exc + string list) \<times> 'w net" where
  "found devices s = (Inr devices, s\<lparr>net_trace := net_trace s @ [Found devices]\<rparr>)"

definition async_discover_devices ::
  "'w luci \<Rightarrow> string list \<Rightarrow> 'w net \<Rightarrow> (exc + string list) \<times> 'w net" where
  "async_discover_devices luci addresses s =
     (case root_response luci addresses s of
        (Inl e, s1) \<Rightarrow> (Inl e, s1)
      | (Inr response, s1) \<Rightarrow>
          (case response_graph response of
             None \<Rightarrow> (Inr [], s1)
           | Some g \<Rightarrow>
               (case graph_ip g of
                  None \<Rightarrow> (Inr [], s1)
                | Some ip \<Rightarrow>
                    if length ip = 0 then (Inr [], s1)
                    else
                      (case async_check_ip_address luci (strip ip) s1 of
                         (Inl e, s2) \<Rightarrow> (Inl e, s2)
                       | (Inr alive, s2) \<Rightarrow>
                           (let devices = (if alive then [strip ip] else [])
                            in case graph_leafs g of
                                 None \<Rightarrow> found devices s2
                               | Some leafs \<Rightarrow>
                                   (case async_prepare_leafs luci devices leafs s2 of
                                      (Inl e, s3) \<Rightarrow> (Inl e, s3)
                                    | (Inr devices1, s3) \<Rightarrow> found devices1 s3))))))"

text \<open>
  The addresses a topology response puts forward, in the order of the walk: the
  address of the graph, then depth first the address of every leaf that is not skipped.
  The leaves below a skipped leaf are not visited.
\<close>

fun leafs_addresses :: "leaf list \<Rightarrow> string list" where
  "leafs_addresses [] = []"
| "leafs_addresses (Leaf ip hw sub # rest) =
     (if leaf_skipped ip hw then leafs_addresses rest
      else strip (the ip) #
             (case sub of None \<Rightarrow> [] | Some cs \<Rightarrow> leafs_addresses cs) @ leafs_addresses rest)"

definition response_addresses :: "response \<Rightarrow> string list" where
  "response_addresses response =
     (case response_graph response of
        None \<Rightarrow> []
      | Some g \<Rightarrow>
          (case graph_ip g of
             None \<Rightarrow> []
           | Some ip \<Rightarrow>
               if length ip = 0 then []
               else strip ip # (case graph_leafs g of None \<Rightarrow> [] | Some ls \<Rightarrow> leafs_addresses ls)))"

text \<open>A well-formed descriptor has a non-empty self-address.\<close>

definition well_formed :: "response \<Rightarrow> bool" where
  "well_formed response =
     (case response_graph response of
        None \<Rightarrow> False
      | Some g \<Rightarrow> (case graph_ip g of None \<Rightarrow> False | Some ip \<Rightarrow> length ip \<noteq> 0))"

text \<open>
  The worlds a run of failing root queries passes through: \<open>ws\<close> starts with the world
  before the first query, and the query to each address of \<open>pre\<close>, made in the world at its
  position, raises a \<open>LuciError\<close> (of either kind) and leaves the next world of \<open>ws\<close>.
\<close>

definition fails_through :: "'w luci \<Rightarrow> string list \<Rightarrow> 'w list \<Rightarrow> bool" where
  "fails_through luci pre ws =
     (length ws = Suc (length pre) \<and>
      (\<forall>i < length pre.
         case luci (pre ! i) Default_timeout (ws ! i) of
           (Raises e, w') \<Rightarrow> is_LuciError e \<and> w' = ws ! Suc i
         | (Returns response, w') \<Rightarrow> False))"

definition root_queries :: "string list \<Rightarrow> net_event list" where
  "root_queries addresses = map (\<lambda>a. Queried a Default_timeout) addresses"

section \<open>Concrete devices and networks\<close>

text \<open>
  An operation that raises a protocol error on its first two invocations and answers with
  an empty object from the third on (the world counts the invocations), and one that never
  answers.
\<close>

definition flaky_client :: "nat client" where
  "flaky_client m w = (if w < 2 then Raises LuciError else Returns (PDict []), Suc w)"

definition dead_client :: "unit client" where
  "dead_client m w = (Raises LuciConnectionError, w)"

text \<open>
  An enumeration \<open>Model\<close> whose members are the ones the sources name, each with its name in
  lower case as value.
\<close>

definition lowercase_values :: "string \<Rightarrow> Model option" where
  "lowercase_values v = (if named_in_sources (upper v) then Some (Model (upper v)) else None)"

text \<open>A router of model CR8806 in router mode that answers every call with an object.\<close>

definition cr8806_client :: "unit client" where
  "cr8806_client m w =
     (if m = Mode_query then Returns (PStr ''router'')
      else if m = Init_info then Returns (PDict [(''hardware'', PStr ''CR8806'')])
      else Returns (PDict []), w)"

text \<open>A node in mesh mode, of a model the registry does not list, that answers every call.\<close>

definition mesh_client :: "unit client" where
  "mesh_client m w =
     (if m = Mode_query then Returns (PDict [(''netmode'', PStr ''Mesh'')])
      else if m = Init_info then Returns (PDict [(''hardware'', PStr ''RA70'')])
      else Returns (PDict []), w)"

text \<open>A router that reports a mode code the table does not hold.\<close>

definition unknown_mode_client :: "unit client" where
  "unknown_mode_client m w =
     (if m = Mode_query then Returns (PDict [(''mode'', PInt 7)]) else Returns (PDict []), w)"

text \<open>Devices whose mode query raises: a protocol error, and an exception of another class.\<close>

definition mode_error_client :: "unit client" where
  "mode_error_client m w = (if m = Mode_query then Raises LuciError else Returns (PDict []), w)"

definition mode_crash_client :: "unit client" where
  "mode_crash_client m w =
     (if m = Mode_query then Raises OtherException else Returns (PDict []), w)"

text \<open>
  A network: the root \<open>10.0.0.1\<close> reports a topology in which \<open>10.0.0.3\<close> is a leaf of the root
  and also a leaf of the leaf \<open>10.0.0.2\<close>; \<open>10.0.0.8\<close> answers with an error response,
  \<open>10.0.0.9\<close> cannot be reached, and every other address answers with an object without
  \<open>graph\<close>.
\<close>

definition example_topology :: response where
  "example_topology =
     Response (Some (Graph (Some ''10.0.0.1'')
       (Some [Leaf (Some ''10.0.0.2'') (Some ''RA70'')
                (Some [Leaf (Some ''10.0.0.3'') (Some ''RA70'') None]),
              Leaf (Some ''10.0.0.3'') (Some ''RA70'') None])))"

definition example_luci :: "unit luci" where
  "example_luci address t w =
     (if address = ''10.0.0.1'' then Returns example_topology
      else if address = ''10.0.0.8'' then Raises LuciError
      else if address = ''10.0.0.9'' then Raises LuciConnectionError
      else Returns (Response None), w)"

text \<open>
  A second network: the root \<open>10.0.0.1\<close> of model R3 reports the leaf \<open>10.0.0.2\<close> and a
  leaf with an empty address; both addresses answer, and no other address can be reached.
\<close>

definition scenario_topology :: response where
  "scenario_topology =
     Response (Some (Graph (Some ''10.0.0.1'')
       (Some [Leaf (Some ''10.0.0.2'') (Some ''RA70'') None,
              Leaf (Some []) (Some ''X'') None])))"

definition scenario_luci :: "unit luci" where
  "scenario_luci address t w =
     (if address = ''10.0.0.1'' then Returns scenario_topology
      else if address = ''10.0.0.2'' then Returns (Response None)
      else Raises LuciConnectionError, w)"

text \<open>
  A user file written by hand, which gets at \<open>Model\<close> by an absolute import and lists R3
  under \<open>mac_filter\<close>.
\<close>

definition hand_written_file :: user_file where
  "hand_written_file =
     Some \<lparr> relative_import = False, body = Dict [(''mac_filter'', [Model ''R3''])] \<rparr>"

text \<open>The user file the service writes when it adds R3 under \<open>mac_filter\<close> to no file.\<close>

definition service_file :: user_file where
  "service_file = Some (written_source [(''mac_filter'', [Model ''R3''])])"

text \<open>
  A network that depends on its state: the world counts the queries made, the first query
  made reaches nothing, and from the second on the network answers as the second network
  above.
\<close>

definition waking_luci :: "nat luci" where
  "waking_luci address t w =
     (if w = 0 then Raises LuciConnectionError
      else if address = ''10.0.0.1'' then Returns scenario_topology
      else if address = ''10.0.0.2'' then Returns (Response None)
      else Raises LuciConnectionError, Suc w)"

text \<open>A network in which \<open>10.0.0.9\<close> cannot be reached and every other query crashes the client.\<close>

definition crash_luci :: "unit luci" where
  "crash_luci address t w =
     (if address = ''10.0.0.9'' then Raises LuciConnectionError else Raises OtherException, w)"

section \<open>Bounded retries\<close>

lemma calls_of_emit [simp]:
  "calls_of m (emit e s) = calls_of m s + (if e = Called m then 1 else 0)"
  by (simp add: calls_of_def emit_def)

lemma pauses_emit [simp]: "pauses (emit e s) = pauses s + (if e = Slept then 1 else 0)"
  by (simp add: pauses_def emit_def)

lemma world_emit [simp]: "world (emit e s) = world s"
  by (simp add: emit_def)

lemma outcome_at_Suc:
  "op w = (out, w') \<Longrightarrow> outcome_at op w (Suc i) = outcome_at op w' i"
  by (simp add: outcome_at_def)

lemma safe_call_attempts_success:
  "k \<le> length atts \<Longrightarrow> 1 \<le> k \<Longrightarrow>
   \<forall>i<k-1. fails (outcome_at (client m) (world s) i) \<Longrightarrow>
   succeeds (outcome_at (client m) (world s) (k-1)) \<Longrightarrow>
   \<exists>s'. safe_call_attempts (call client m) nm atts s = (Inr True, s') \<and>
        calls_of m s' = calls_of m s + k \<and> pauses s' = pauses s + (k - 1)"
proof (induction atts arbitrary: k s)
  case Nil
  then show ?case by simp
next
  case (Cons a atts)
  obtain out w' where cw: "client m (world s) = (out, w')" by (cases "client m (world s)")
  let ?s1 = "emit (Called m) (s\<lparr>world := w'\<rparr>)"
  have c: "call client m s = (out, ?s1)" by (simp add: call_def cw)
  have o0: "outcome_at (client m) (world s) 0 = out" by (simp add: outcome_at_def cw)
  show ?case
  proof (cases "k = 1")
    case True
    with Cons.prems o0 have "succeeds out" by simp
    then show ?thesis using True c
      by (auto simp: succeeds_def calls_of_def pauses_def emit_def split: outcome.splits)
  next
    case False
    with Cons.prems have k2: "2 \<le> k" by simp
    then obtain j where j: "k = Suc j" "1 \<le> j" by (cases k) auto
    have f0: "fails out" using Cons.prems(3) o0 k2 by auto
    have fj: "\<forall>i<j-1. fails (outcome_at (client m) w' i)"
    proof (intro allI impI)
      fix i assume "i < j - 1"
      then have "Suc i < k - 1" using j by simp
      then show "fails (outcome_at (client m) w' i)"
        using Cons.prems(3) outcome_at_Suc[of "client m" "world s" out w', OF cw] by metis
    qed
    have sj: "succeeds (outcome_at (client m) w' (j-1))"
      using Cons.prems(4) outcome_at_Suc[of "client m" "world s" out w' "j-1", OF cw] j by simp
    have lj: "j \<le> length atts" using Cons.prems(1) j by simp
    show ?thesis
    proof (cases out)
      case (Returns resp)
      let ?s2 = "emit Slept ?s1"
      have w2: "world ?s2 = w'" by simp
      from Cons.IH[of j ?s2, OF lj j(2)] fj sj w2
      obtain s' where "safe_call_attempts (call client m) nm atts ?s2 = (Inr True, s')"
        "calls_of m s' = calls_of m ?s2 + j" "pauses s' = pauses ?s2 + (j - 1)" by auto
      then show ?thesis using Returns f0 c j
        by (simp add: fails_def calls_of_def pauses_def emit_def)
    next
      case (Raises e)
      let ?s2 = "emit Slept (emit (Logged Debug nm) ?s1)"
      have w2: "world ?s2 = w'" by simp
      from Cons.IH[of j ?s2, OF lj j(2)] fj sj w2
      obtain s' where "safe_call_attempts (call client m) nm atts ?s2 = (Inr True, s')"
        "calls_of m s' = calls_of m ?s2 + j" "pauses s' = pauses ?s2 + (j - 1)" by auto
      then show ?thesis using Raises f0 c j
        by (simp add: fails_def calls_of_def pauses_def emit_def)
    qed
  qed
qed

lemma safe_call_attempts_failure:
  "\<forall>i<length atts. fails (outcome_at (client m) (world s) i) \<Longrightarrow>
   \<exists>s'. safe_call_attempts (call client m) nm atts s = (Inr False, s') \<and>
        calls_of m s' = calls_of m s + length atts \<and> pauses s' = pauses s + length atts"
proof (induction atts arbitrary: s)
  case Nil
  then show ?case by simp
next
  case (Cons a atts)
  obtain out w' where cw: "client m (world s) = (out, w')" by (cases "client m (world s)")
  let ?s1 = "emit (Called m) (s\<lparr>world := w'\<rparr>)"
  have c: "call client m s = (out, ?s1)" by (simp add: call_def cw)
  have o0: "outcome_at (client m) (world s) 0 = out" by (simp add: outcome_at_def cw)
  have f0: "fails out" using Cons.prems o0 by auto
  have fj: "\<forall>i<length atts. fails (outcome_at (client m) w' i)"
  proof (intro allI impI)
    fix i assume "i < length atts"
    then have "Suc i < length (a # atts)" by simp
    then show "fails (outcome_at (client m) w' i)"
      using Cons.prems outcome_at_Suc[of "client m" "world s" out w', OF cw] by metis
  qed
  show ?case
  proof (cases out)
    case (Returns resp)
    let ?s2 = "emit Slept ?s1"
    have w2: "world ?s2 = w'" by simp
    from Cons.IH[of ?s2] fj w2
    obtain s' where "safe_call_attempts (call client m) nm atts ?s2 = (Inr False, s')"
      "calls_of m s' = calls_of m ?s2 + length atts" "pauses s' = pauses ?s2 + length atts" by auto
    then show ?thesis using Returns f0 c
      by (simp add: fails_def calls_of_def pauses_def emit_def)
  next
    case (Raises e)
    let ?s2 = "emit Slept (emit (Logged Debug nm) ?s1)"
    have w2: "world ?s2 = w'" by simp
    from Cons.IH[of ?s2] fj w2
    obtain s' where "safe_call_attempts (call client m) nm atts ?s2 = (Inr False, s')"
      "calls_of m s' = calls_of m ?s2 + length atts" "pauses s' = pauses ?s2 + length atts" by auto
    then show ?thesis using Raises f0 c
      by (simp add: fails_def calls_of_def pauses_def emit_def)
  qed
qed

text \<open>
  C3. With \<open>max_retries \<ge> 1\<close>: an operation that fails on its first \<open>k - 1\<close> attempts and
  succeeds on attempt \<open>k \<le> max_retries\<close> makes \<open>_safe_call\<close> return \<open>True\<close> after exactly \<open>k\<close>
  invocations and \<open>k - 1\<close> one-second pauses; an operation that fails on every attempt makes
  it return \<open>False\<close> after exactly \<open>max_retries\<close> invocations.
\<close>

theorem safe_call_retries:
  assumes "1 \<le> max_retries s"
  shows "(1 \<le> k \<and> int k \<le> max_retries s \<and>
          (\<forall>i<k-1. fails (outcome_at (client m) (world s) i)) \<and>
          succeeds (outcome_at (client m) (world s) (k-1))
          \<longrightarrow> (\<exists>s'. safe_call (call client m) nm s = (Inr True, s') \<and>
                    calls_of m s' = calls_of m s + k \<and> pauses s' = pauses s + (k - 1)))
       \<and> ((\<forall>i<nat (max_retries s). fails (outcome_at (client m) (world s) i))
          \<longrightarrow> (\<exists>s'. safe_call (call client m) nm s = (Inr False, s') \<and>
                    calls_of m s' = calls_of m s + nat (max_retries s) \<and>
                    pauses s' = pauses s + nat (max_retries s)))"
proof (intro conjI impI)
  assume h: "1 \<le> k \<and> int k \<le> max_retries s \<and>
          (\<forall>i<k-1. fails (outcome_at (client m) (world s) i)) \<and>
          succeeds (outcome_at (client m) (world s) (k-1))"
  then have "k \<le> nat (max_retries s)" by linarith
  then have "k \<le> length [1 .. max_retries s]" by simp
  with h show "\<exists>s'. safe_call (call client m) nm s = (Inr True, s') \<and>
                    calls_of m s' = calls_of m s + k \<and> pauses s' = pauses s + (k - 1)"
    unfolding safe_call_def by (intro safe_call_attempts_success) auto
next
  assume h: "\<forall>i<nat (max_retries s). fails (outcome_at (client m) (world s) i)"
  have l: "length [1 .. max_retries s] = nat (max_retries s)" by simp
  from h have "\<forall>i<length [1 .. max_retries s]. fails (outcome_at (client m) (world s) i)"
    by (simp only: l)
  from safe_call_attempts_failure[of "[1 .. max_retries s]" client m s nm, OF this] show
    "\<exists>s'. safe_call (call client m) nm s = (Inr False, s') \<and>
          calls_of m s' = calls_of m s + nat (max_retries s) \<and>
          pauses s' = pauses s + nat (max_retries s)"
    unfolding safe_call_def by (simp only: l)
qed

lemma flaky_outcomes:
  "outcome_at (flaky_client m) 0 0 = Raises LuciError"
  "outcome_at (flaky_client m) 0 (Suc 0) = Raises LuciError"
  "outcome_at (flaky_client m) 0 (Suc (Suc 0)) = Returns (PDict [])"
  by (simp_all add: outcome_at_def flaky_client_def)

theorem safe_call_retries_witness:
  "(\<exists>s'. safe_call (call flaky_client Qos_info) ''per_device_qos'' (init_checker 0 3) = (Inr True, s') \<and>
         calls_of Qos_info s' = 3 \<and> pauses s' = 2)
   \<and> (\<exists>s'. safe_call (call dead_client Qos_info) ''per_device_qos'' (init_checker () 3) = (Inr False, s') \<and>
         calls_of Qos_info s' = 3 \<and> pauses s' = 3)"
proof
  let ?s = "init_checker (0::nat) 3"
  have mr: "1 \<le> max_retries ?s" by (simp add: init_checker_def)
  have h: "1 \<le> (3::nat) \<and> int 3 \<le> max_retries ?s \<and>
     (\<forall>i<3-1. fails (outcome_at (flaky_client Qos_info) (world ?s) i)) \<and>
     succeeds (outcome_at (flaky_client Qos_info) (world ?s) (3-1))"
    by (simp add: init_checker_def less_Suc_eq numeral_2_eq_2 flaky_outcomes fails_def
        is_LuciError_def succeeds_def isinstance_dict_def)
  from safe_call_retries[OF mr, of 3 flaky_client Qos_info "''per_device_qos''", THEN conjunct1, THEN mp, OF h]
  obtain s' where "safe_call (call flaky_client Qos_info) ''per_device_qos'' ?s = (Inr True, s')"
    "calls_of Qos_info s' = calls_of Qos_info ?s + 3" "pauses s' = pauses ?s + (3 - 1)" by blast
  then show "\<exists>s'. safe_call (call flaky_client Qos_info) ''per_device_qos'' ?s = (Inr True, s') \<and>
         calls_of Qos_info s' = 3 \<and> pauses s' = 2"
    by (simp add: init_checker_def calls_of_def pauses_def)
next
  let ?s = "init_checker () 3"
  have mr: "1 \<le> max_retries ?s" by (simp add: init_checker_def)
  have f: "\<forall>i<nat (max_retries ?s). fails (outcome_at (dead_client Qos_info) (world ?s) i)"
    by (simp add: outcome_at_def dead_client_def fails_def is_LuciError_def)
  from safe_call_retries[OF mr, of 3 dead_client Qos_info "''per_device_qos''", THEN conjunct2, THEN mp, OF f]
  obtain s' where "safe_call (call dead_client Qos_info) ''per_device_qos'' ?s = (Inr False, s')"
    "calls_of Qos_info s' = calls_of Qos_info ?s + nat (max_retries ?s)"
    "pauses s' = pauses ?s + nat (max_retries ?s)" by blast
  then show "\<exists>s'. safe_call (call dead_client Qos_info) ''per_device_qos'' ?s = (Inr False, s') \<and>
         calls_of Qos_info s' = 3 \<and> pauses s' = 3"
    by (simp add: init_checker_def calls_of_def pauses_def)
qed

section \<open>What a run leaves unchanged\<close>

lemma emit_fields [simp]:
  "trace (emit e s) = trace s @ [e]"
  "result (emit e s) = result s"
  "mode (emit e s) = mode s"
  "model (emit e s) = model s"
  "silent_mode (emit e s) = silent_mode s"
  "max_retries (emit e s) = max_retries s"
  by (simp_all add: emit_def)

lemma calls_of_simps [simp]:
  "calls_of m (s\<lparr>result := r\<rparr>) = calls_of m s"
  "calls_of m (s\<lparr>mode := md\<rparr>) = calls_of m s"
  "calls_of m (s\<lparr>model := ml\<rparr>) = calls_of m s"
  "calls_of m (s\<lparr>world := w\<rparr>) = calls_of m s"
  "calls_of m (s\<lparr>trace := trace s @ evs\<rparr>) = calls_of m s + count_list evs (Called m)"
  by (simp_all add: calls_of_def)

lemma call_fields:
  assumes "call client m s = (out, s1)"
  shows "result s1 = result s" "mode s1 = mode s" "model s1 = model s"
    "silent_mode s1 = silent_mode s" "max_retries s1 = max_retries s"
    "calls_of m' s1 = calls_of m' s + (if m' = m then 1 else 0)"
  using assms by (auto simp: call_def split: prod.splits)

lemma detect_mode_fields:
  assumes "detect_mode client s = (r, s1)"
  shows "result s1 = result s" "model s1 = model s"
    "silent_mode s1 = silent_mode s" "max_retries s1 = max_retries s"
    "m \<noteq> Mode_query \<Longrightarrow> calls_of m s1 = calls_of m s"
  using assms
  by (auto simp: detect_mode_def call_fields split: prod.splits outcome.splits if_splits dest: call_fields)


lemma model_failed_fields:
  assumes "model_failed s = (r, s1)"
  shows "r = Inr ()" "result s1 = result s" "model s1 = None"
    "silent_mode s1 = silent_mode s" "max_retries s1 = max_retries s"
    "calls_of m s1 = calls_of m s"
  using assms by (auto simp: model_failed_def)

lemma detect_model_fields:
  assumes "detect_model mv client s = (r, s1)"
  shows "result s1 = result s"
    "silent_mode s1 = silent_mode s" "max_retries s1 = max_retries s"
    "m \<noteq> Init_info \<Longrightarrow> calls_of m s1 = calls_of m s"
proof -
  obtain out s0 where c: "call client Init_info s = (out, s0)"
    by (cases "call client Init_info s")
  have s0: "result s0 = result s" "silent_mode s0 = silent_mode s"
    "max_retries s0 = max_retries s" "m \<noteq> Init_info \<Longrightarrow> calls_of m s0 = calls_of m s"
    using call_fields[OF c] by auto
  have "s1 = s0 \<or> s1 = s0\<lparr>model := Some (the (model s1))\<rparr> \<or> model_failed s0 = (Inr (), s1)"
    using assms c
    by (auto simp: detect_model_def model_failed_def
        split: outcome.splits pyval.splits option.splits if_splits)
  then show "result s1 = result s"
    "silent_mode s1 = silent_mode s" "max_retries s1 = max_retries s"
    "m \<noteq> Init_info \<Longrightarrow> calls_of m s1 = calls_of m s"
    using s0 model_failed_fields[of s0 "Inr ()" s1]
    by (metis (no_types, lifting) calls_of_simps(3) checker.select_convs checker.surjective checker.update_convs(5))+
qed

section \<open>No retries\<close>

lemma safe_call_none:
  "max_retries s \<le> 0 \<Longrightarrow> safe_call func nm s = (Inr False, s)"
  by (simp add: safe_call_def)

lemma check_features_no_retries:
  "max_retries s \<le> 0 \<Longrightarrow>
   \<exists>s'. check_features client combined fs s = (Inr (), s') \<and>
        model s' = model s \<and>
        (\<forall>m. calls_of m s' = calls_of m s) \<and>
        (\<forall>f. result s' f =
               (if f \<in> fst ` set fs \<and> \<not> predefined_unsupported (model s) combined f
                then Some (Some False) else result s f))"
proof (induction fs arbitrary: s)
  case Nil
  then show ?case by simp
next
  case (Cons fm fs)
  obtain feature m where fm: "fm = (feature, m)" by (cases fm)
  show ?case
  proof (cases "predefined_unsupported (model s) combined feature")
    case True
    let ?s1 = "emit (Logged Debug feature) s"
    have "max_retries ?s1 \<le> 0" using Cons.prems by simp
    from Cons.IH[OF this] obtain s' where
      "check_features client combined fs ?s1 = (Inr (), s')" "model s' = model ?s1"
      "\<forall>m. calls_of m s' = calls_of m ?s1"
      "\<forall>f. result s' f = (if f \<in> fst ` set fs \<and> \<not> predefined_unsupported (model ?s1) combined f
                then Some (Some False) else result ?s1 f)" by blast
    then show ?thesis using True fm by auto
  next
    case False
    let ?s2 = "s\<lparr>result := (result s)(feature \<mapsto> Some False)\<rparr>"
    let ?s3 = "if \<not> silent_mode ?s2
               then emit (Logged Warning ''Please add it to unsupported.py'')
                      (emit (Logged Warning feature) ?s2) else ?s2"
    have "max_retries ?s3 \<le> 0" using Cons.prems by simp
    from Cons.IH[OF this] obtain s' where
      "check_features client combined fs ?s3 = (Inr (), s')" "model s' = model ?s3"
      "\<forall>m. calls_of m s' = calls_of m ?s3"
      "\<forall>f. result s' f = (if f \<in> fst ` set fs \<and> \<not> predefined_unsupported (model ?s3) combined f
                then Some (Some False) else result ?s3 f)" by blast
    then show ?thesis using False fm safe_call_none[OF Cons.prems]
      by (auto simp: Let_def)
  qed
qed


lemma features_endpoints:
  "(feature, m) \<in> set features \<Longrightarrow> m \<noteq> Mode_query \<and> m \<noteq> Init_info"
  by (auto simp: features_def)

text \<open>
  C10. With \<open>max_retries \<le> 0\<close>, \<open>_safe_call\<close> returns \<open>False\<close> and leaves the state as it
  was: the operation is not invoked. A run whose mode and model detection come through then
  returns, has invoked none of the feature operations, and records \<open>False\<close> for every feature
  of the catalogue that the registry does not make it skip.
\<close>

theorem zero_retries:
  assumes "max_retries s \<le> 0"
  shows "safe_call func nm s = (Inr False, s) \<and>
    (\<forall>s1 s2. detect_mode client s = (Inr (), s1) \<and> detect_model mv client s1 = (Inr (), s2) \<longrightarrow>
       (\<exists>s'. run mv client uf s = (Inr (result s'), s') \<and>
          (\<forall>(feature, m) \<in> set features.
             calls_of m s' = calls_of m s \<and>
             (if predefined_unsupported (model s2) (fst (get_combined_unsupported UNSUPPORTED uf)) feature
              then result s' feature = result s feature
              else result s' feature = Some (Some False)))))"
proof (intro conjI allI impI)
  show "safe_call func nm s = (Inr False, s)" using assms by (rule safe_call_none)
next
  fix s1 s2
  assume d: "detect_mode client s = (Inr (), s1) \<and> detect_model mv client s1 = (Inr (), s2)"
  then have d1: "detect_mode client s = (Inr (), s1)"
    and d2: "detect_model mv client s1 = (Inr (), s2)" by auto
  obtain combined logged where g: "get_combined_unsupported UNSUPPORTED uf = (combined, logged)"
    by (cases "get_combined_unsupported UNSUPPORTED uf")
  have lg: "count_list logged (Called m) = 0" for m
    using g by (auto simp: get_combined_unsupported_def split: option.splits module_body.splits)
  let ?s2 = "s2\<lparr>trace := trace s2 @ logged\<rparr>"
  have mr: "max_retries ?s2 \<le> 0"
    using assms detect_mode_fields(4)[OF d1] detect_model_fields(3)[OF d2] by simp
  from check_features_no_retries[OF mr, of client combined features] obtain s' where
    c: "check_features client combined features ?s2 = (Inr (), s')"
    and cm: "model s' = model ?s2"
    and cc: "\<forall>m. calls_of m s' = calls_of m ?s2"
    and cr: "\<forall>f. result s' f =
               (if f \<in> fst ` set features \<and> \<not> predefined_unsupported (model ?s2) combined f
                then Some (Some False) else result ?s2 f)" by blast
  have r: "run mv client uf s = (Inr (result s'), s')"
    by (simp add: run_def d1 d2 g c)
  have res: "result ?s2 = result s"
    using detect_mode_fields(1)[OF d1] detect_model_fields(1)[OF d2] by simp
  have "calls_of m s' = calls_of m s \<and>
        (if predefined_unsupported (model s2) combined feature
         then result s' feature = result s feature
         else result s' feature = Some (Some False))"
    if fm: "(feature, m) \<in> set features" for feature m
  proof -
    have ne: "m \<noteq> Mode_query" "m \<noteq> Init_info" using features_endpoints[OF fm] by auto
    have "calls_of m s' = calls_of m s"
      using cc lg detect_mode_fields(5)[OF d1 ne(1)] detect_model_fields(4)[OF d2 ne(2)]
      by simp
    moreover have "feature \<in> fst ` set features" using fm by force
    ultimately show ?thesis using cr res by simp
  qed
  then show "\<exists>s'. run mv client uf s = (Inr (result s'), s') \<and>
          (\<forall>(feature, m) \<in> set features.
             calls_of m s' = calls_of m s \<and>
             (if predefined_unsupported (model s2) (fst (get_combined_unsupported UNSUPPORTED uf)) feature
              then result s' feature = result s feature
              else result s' feature = Some (Some False)))"
    using r g by auto
qed

lemma cr8806_detect_mode:
  "detect_mode cr8806_client (init_checker () mr) =
     (Inr (), \<lparr> world = (), trace = [Called Mode_query, Logged Debug ''Raw mode response from client'', Logged Debug ''Parsed mode''],
        result = Map.empty, mode = Some DEFAULT, model = None, silent_mode = False, max_retries = mr \<rparr>)"
  by (simp add: detect_mode_def call_def cr8806_client_def init_checker_def emit_def parse_mode_def
      extract_raw_mode_def MODE_MAP_def lower_def lower_char_def)


lemma cr8806_value: "lowercase_values (lower ''CR8806'') = Some (Model ''CR8806'')"
  by code_simp

lemma cr8806_detect_model:
  "\<exists>s2. detect_model lowercase_values cr8806_client s1 = (Inr (), s2) \<and>
        model s2 = Some (Model ''CR8806'')"
  by (simp add: detect_model_def call_def cr8806_client_def cr8806_value)

lemma builtin_registry:
  "get_combined_unsupported UNSUPPORTED None = (UNSUPPORTED, [])"
  by (simp add: get_combined_unsupported_def)

lemma cr8806_unsupported:
  "predefined_unsupported (Some (Model ''CR8806'')) UNSUPPORTED ''wifi_config''"
  "\<not> predefined_unsupported (Some (Model ''CR8806'')) UNSUPPORTED ''mac_filter''"
  by (simp_all add: predefined_unsupported_def models_for_def UNSUPPORTED_def)

theorem zero_retries_witness:
  "max_retries (init_checker () 0) \<le> 0 \<and>
   safe_call (call cr8806_client Set_mac_filter) ''mac_filter'' (init_checker () 0)
     = (Inr False, init_checker () 0) \<and>
   (\<exists>s'. run lowercase_values cr8806_client None (init_checker () 0) = (Inr (result s'), s') \<and>
      calls_of Set_mac_filter s' = 0 \<and> result s' ''mac_filter'' = Some (Some False) \<and>
      calls_of Set_wifi s' = 0 \<and> result s' ''wifi_config'' = None)"
proof -
  let ?s = "init_checker () 0"
  have mr: "max_retries ?s \<le> 0" by (simp add: init_checker_def)
  obtain s1 where d1: "detect_mode cr8806_client ?s = (Inr (), s1)"
    using cr8806_detect_mode by blast
  obtain s2 where d2: "detect_model lowercase_values cr8806_client s1 = (Inr (), s2)"
    and m2: "model s2 = Some (Model ''CR8806'')"
    using cr8806_detect_model by blast
  note z = zero_retries[OF mr, of "call cr8806_client Set_mac_filter" "''mac_filter''"
      cr8806_client lowercase_values None]
  from z have a: "safe_call (call cr8806_client Set_mac_filter) ''mac_filter'' ?s = (Inr False, ?s)"
    by blast
  from z d1 d2 obtain s' where r: "run lowercase_values cr8806_client None ?s = (Inr (result s'), s')"
    and f: "\<forall>(feature, m) \<in> set features.
             calls_of m s' = calls_of m ?s \<and>
             (if predefined_unsupported (model s2) (fst (get_combined_unsupported UNSUPPORTED None)) feature
              then result s' feature = result ?s feature
              else result s' feature = Some (Some False))" by blast
  have "(''mac_filter'', Set_mac_filter) \<in> set features" "(''wifi_config'', Set_wifi) \<in> set features"
    by (simp_all add: features_def)
  with f have "calls_of Set_mac_filter s' = 0 \<and> result s' ''mac_filter'' = Some (Some False) \<and>
      calls_of Set_wifi s' = 0 \<and> result s' ''wifi_config'' = None"
    using m2 cr8806_unsupported
    by (fastforce simp: builtin_registry init_checker_def calls_of_def)
  with mr a r show ?thesis by blast
qed

section \<open>Features the registry excludes\<close>

lemma detect_model_mode:
  assumes "detect_model mv client s = (r, s1)"
  shows "mode s1 = mode s"
  using assms
  by (auto simp: detect_model_def model_failed_def call_def
      split: prod.splits outcome.splits pyval.splits option.splits if_splits)

lemma safe_call_attempts_fields:
  "safe_call_attempts (call client m) nm atts s = (r, s1) \<Longrightarrow>
   result s1 = result s \<and> mode s1 = mode s \<and> model s1 = model s \<and>
   silent_mode s1 = silent_mode s \<and> max_retries s1 = max_retries s \<and>
   (\<forall>m'. m' \<noteq> m \<longrightarrow> calls_of m' s1 = calls_of m' s)"
proof (induction atts arbitrary: s)
  case Nil
  then show ?case by simp
next
  case (Cons a atts)
  obtain out s0 where c: "call client m s = (out, s0)" by (cases "call client m s")
  note f = call_fields[OF c]
  show ?case
  proof (cases out)
    case (Returns resp)
    show ?thesis
    proof (cases "isinstance_dict resp \<or> resp = PBool True")
      case True
      then have "s1 = s0" using Cons.prems c Returns by auto
      then show ?thesis using f by simp
    next
      case False
      then have "safe_call_attempts (call client m) nm atts (emit Slept s0) = (r, s1)"
        using Cons.prems c Returns by auto
      from Cons.IH[OF this] show ?thesis using f by simp
    qed
  next
    case (Raises e)
    show ?thesis
    proof (cases "is_LuciError e \<or> is_Exception e")
      case True
      then have "safe_call_attempts (call client m) nm atts
                   (emit Slept (emit (Logged Debug nm) s0)) = (r, s1)"
        using Cons.prems c Raises by auto
      from Cons.IH[OF this] show ?thesis using f by simp
    next
      case False
      then have "s1 = s0" using Cons.prems c Raises by auto
      then show ?thesis using f by simp
    qed
  qed
qed

lemma safe_call_fields:
  assumes "safe_call (call client m) nm s = (r, s1)"
  shows "result s1 = result s" "mode s1 = mode s" "model s1 = model s"
    "silent_mode s1 = silent_mode s" "max_retries s1 = max_retries s"
    "m' \<noteq> m \<Longrightarrow> calls_of m' s1 = calls_of m' s"
  using safe_call_attempts_fields[of client m nm "[1 .. max_retries s]" s r s1] assms
  by (simp_all add: safe_call_def)

lemma check_features_skip:
  "check_features client combined fs s = (r, s') \<Longrightarrow>
   model s' = model s \<and> mode s' = mode s \<and>
   (\<forall>f. f \<notin> fst ` set fs \<or> predefined_unsupported (model s) combined f
        \<longrightarrow> result s' f = result s f) \<and>
   (\<forall>m. (\<forall>f. (f, m) \<in> set fs \<longrightarrow> predefined_unsupported (model s) combined f)
        \<longrightarrow> calls_of m s' = calls_of m s)"
proof (induction fs arbitrary: s)
  case Nil
  then show ?case by simp
next
  case (Cons fm fs)
  obtain feature m0 where fm: "fm = (feature, m0)" by (cases fm)
  show ?case
  proof (cases "predefined_unsupported (model s) combined feature")
    case True
    then have "check_features client combined fs (emit (Logged Debug feature) s) = (r, s')"
      using Cons.prems fm by simp
    from Cons.IH[OF this] show ?thesis using fm by auto
  next
    case False
    obtain q s1 where sc: "safe_call (call client m0) feature s = (q, s1)"
      by (cases "safe_call (call client m0) feature s")
    note f = safe_call_fields[OF sc]
    show ?thesis
    proof (cases q)
      case (Inl e)
      then have "s' = s1" using Cons.prems fm False sc by simp
      then show ?thesis using f False fm by auto
    next
      case (Inr supported)
      let ?s2 = "s1\<lparr>result := (result s1)(feature \<mapsto> Some supported)\<rparr>"
      let ?s3 = "if supported = False \<and> \<not> silent_mode ?s2
                 then emit (Logged Warning ''Please add it to unsupported.py'')
                        (emit (Logged Warning feature) ?s2)
                 else ?s2"
      have "check_features client combined fs ?s3 = (r, s')"
        using Cons.prems fm False sc Inr by (simp add: Let_def)
      from Cons.IH[OF this]
      have ih: "model s' = model ?s3" "mode s' = mode ?s3"
        "\<forall>f. f \<notin> fst ` set fs \<or> predefined_unsupported (model ?s3) combined f
            \<longrightarrow> result s' f = result ?s3 f"
        "\<forall>m. (\<forall>f. (f, m) \<in> set fs \<longrightarrow> predefined_unsupported (model ?s3) combined f)
            \<longrightarrow> calls_of m s' = calls_of m ?s3" by blast+
      have m3: "model ?s3 = model s" "mode ?s3 = mode s" using f by auto
      have r3: "\<And>g. g \<noteq> feature \<Longrightarrow> result ?s3 g = result s g" using f by auto
      have c3: "\<And>m. m \<noteq> m0 \<Longrightarrow> calls_of m ?s3 = calls_of m s" using f by auto
      show ?thesis
      proof (intro conjI allI impI)
        show "model s' = model s" using ih(1) m3 by simp
        show "mode s' = mode s" using ih(2) m3 by simp
      next
        fix g assume g: "g \<notin> fst ` set (fm # fs) \<or> predefined_unsupported (model s) combined g"
        then have "g \<noteq> feature" using False fm by auto
        moreover from g have "g \<notin> fst ` set fs \<or> predefined_unsupported (model ?s3) combined g"
          using m3 by auto
        ultimately show "result s' g = result s g" using ih(3) r3 by simp
      next
        fix m assume a: "\<forall>f. (f, m) \<in> set (fm # fs) \<longrightarrow> predefined_unsupported (model s) combined f"
        then have "m \<noteq> m0" using False fm by auto
        moreover from a have "\<forall>f. (f, m) \<in> set fs \<longrightarrow> predefined_unsupported (model ?s3) combined f"
          using m3 by auto
        ultimately show "calls_of m s' = calls_of m s" using ih(4) c3 by simp
      qed
    qed
  qed
qed

lemma features_endpoint_unique:
  "(f, m) \<in> set features \<Longrightarrow> (g, m) \<in> set features \<Longrightarrow> g = f"
  by (auto simp: features_def)


lemma run_unfold:
  assumes "detect_mode client s = (Inr (), s1)" "detect_model mv client s1 = (Inr (), s2)"
  shows "run mv client uf s =
     (case check_features client (fst (get_combined_unsupported UNSUPPORTED uf)) features
             (s2\<lparr>trace := trace s2 @ snd (get_combined_unsupported UNSUPPORTED uf)\<rparr>) of
        (Inl e, s3) \<Rightarrow> (Inl e, s3)
      | (Inr _, s3) \<Rightarrow> (Inr (result s3), s3))"
  using assms by (simp add: run_def split: prod.splits)

lemma registry_logs_no_call:
  "count_list (snd (get_combined_unsupported builtin uf)) (Called m) = 0"
  by (auto simp: get_combined_unsupported_def split: option.splits module_body.splits)

text \<open>
  C1, as the code has it. When the detected model is in the combined unsupported set of a
  feature of the catalogue, the run makes no call of the feature's operation and leaves the
  feature's entry of the result as it was: it records nothing for the feature, so that in
  the result of a fresh checker the feature is absent.
\<close>

theorem predefined_unsupported_not_probed:
  assumes "detect_mode client s = (Inr (), s1)"
    and "detect_model mv client s1 = (Inr (), s2)"
    and "(feature, m) \<in> set features"
    and "predefined_unsupported (model s2) (fst (get_combined_unsupported UNSUPPORTED uf)) feature"
    and "run mv client uf s = (r, s')"
  shows "calls_of m s' = calls_of m s \<and> result s' feature = result s feature \<and>
         (case r of Inl e \<Rightarrow> True | Inr res \<Rightarrow> res feature = result s feature)"
proof -
  let ?combined = "fst (get_combined_unsupported UNSUPPORTED uf)"
  let ?s2 = "s2\<lparr>trace := trace s2 @ snd (get_combined_unsupported UNSUPPORTED uf)\<rparr>"
  obtain q s3 where c: "check_features client ?combined features ?s2 = (q, s3)"
    by (cases "check_features client ?combined features ?s2")
  have r: "s' = s3" "case r of Inl e \<Rightarrow> True | Inr res \<Rightarrow> res = result s3"
    using assms(5) c run_unfold[OF assms(1,2), of uf] by (auto split: sum.splits)
  have sk: "predefined_unsupported (model ?s2) ?combined feature" using assms(4) by simp
  have "\<forall>f. (f, m) \<in> set features \<longrightarrow> predefined_unsupported (model ?s2) ?combined f"
    using features_endpoint_unique[OF assms(3)] sk by blast
  with check_features_skip[OF c] sk
  have a: "result s3 feature = result ?s2 feature" "calls_of m s3 = calls_of m ?s2" by blast+
  have ne: "m \<noteq> Mode_query" "m \<noteq> Init_info" using features_endpoints[OF assms(3)] by auto
  have b: "result ?s2 feature = result s feature"
    using detect_mode_fields(1)[OF assms(1)] detect_model_fields(1)[OF assms(2)] by simp
  have d: "calls_of m ?s2 = calls_of m s"
    using detect_mode_fields(5)[OF assms(1) ne(1)] detect_model_fields(4)[OF assms(2) ne(2)]
      registry_logs_no_call by simp
  show ?thesis using a b d r by (auto split: sum.splits)
qed

theorem predefined_unsupported_not_probed_witness:
  "(''wifi_config'', Set_wifi) \<in> set features \<and>
   predefined_unsupported (Some (Model ''CR8806''))
     (fst (get_combined_unsupported UNSUPPORTED None)) ''wifi_config'' \<and>
   calls_of Set_wifi (snd (run lowercase_values cr8806_client None (init_checker () 5))) = 0 \<and>
   result (snd (run lowercase_values cr8806_client None (init_checker () 5))) ''wifi_config'' = None"
proof -
  let ?s = "init_checker () 5"
  obtain s1 where d1: "detect_mode cr8806_client ?s = (Inr (), s1)"
    using cr8806_detect_mode by blast
  obtain s2 where d2: "detect_model lowercase_values cr8806_client s1 = (Inr (), s2)"
    and m2: "model s2 = Some (Model ''CR8806'')"
    using cr8806_detect_model by blast
  have f: "(''wifi_config'', Set_wifi) \<in> set features" by (simp add: features_def)
  have p: "predefined_unsupported (model s2) (fst (get_combined_unsupported UNSUPPORTED None))
             ''wifi_config''"
    using m2 cr8806_unsupported(1) by (simp add: builtin_registry)
  obtain r s' where r: "run lowercase_values cr8806_client None ?s = (r, s')"
    by (cases "run lowercase_values cr8806_client None ?s")
  from predefined_unsupported_not_probed[OF d1 d2 f p r]
  have "calls_of Set_wifi s' = 0" "result s' ''wifi_config'' = None"
    by (simp_all add: init_checker_def calls_of_def)
  then show ?thesis using f p m2 r by simp
qed

text \<open>
  A CR8806, which the built-in table lists under \<open>wifi_config\<close>: the run returns, and its
  result holds no entry for \<open>wifi_config\<close>, so not the entry \<open>False\<close>.
\<close>

theorem predefined_unsupported_counterexample:
  "\<not> isl (fst (run lowercase_values cr8806_client None (init_checker () 5))) \<and>
   model (snd (run lowercase_values cr8806_client None (init_checker () 5)))
     = Some (Model ''CR8806'') \<and>
   predefined_unsupported (Some (Model ''CR8806''))
     (fst (get_combined_unsupported UNSUPPORTED None)) ''wifi_config'' \<and>
   projr (fst (run lowercase_values cr8806_client None (init_checker () 5))) ''wifi_config''
     \<noteq> Some (Some False)"
  by code_simp

section \<open>The mode and the feature checks\<close>

text \<open>
  C2. A node in mesh mode: \<open>run\<close> invokes \<open>qos_info\<close> and \<open>rom_update\<close>, once each here, and
  records \<open>True\<close> for \<open>per_device_qos\<close> and \<open>rom_update\<close>, where \<open>_check_qos_info\<close> and
  \<open>_check_rom_update\<close> give \<open>None\<close> in the same state.
\<close>

theorem mesh_mode_is_probed:
  "\<not> isl (fst (run lowercase_values mesh_client None (init_checker () 5))) \<and>
   mode (snd (run lowercase_values mesh_client None (init_checker () 5))) = Some MESH \<and>
   projr (fst (run lowercase_values mesh_client None (init_checker () 5))) ''per_device_qos''
     = Some (Some True) \<and>
   projr (fst (run lowercase_values mesh_client None (init_checker () 5))) ''rom_update''
     = Some (Some True) \<and>
   calls_of Qos_info (snd (run lowercase_values mesh_client None (init_checker () 5))) = 1 \<and>
   calls_of Rom_update (snd (run lowercase_values mesh_client None (init_checker () 5))) = 1 \<and>
   fst (check_qos_info mesh_client
          (snd (run lowercase_values mesh_client None (init_checker () 5)))) = Inr None \<and>
   fst (check_rom_update mesh_client
          (snd (run lowercase_values mesh_client None (init_checker () 5)))) = Inr None"
  by code_simp

section \<open>Mode detection\<close>

lemma run_mode:
  assumes "detect_mode client s = (Inr (), s1)" and "run mv client uf s = (r, s')"
  shows "mode s' = mode s1"
proof -
  obtain q s2 where d2: "detect_model mv client s1 = (q, s2)"
    by (cases "detect_model mv client s1")
  have m2: "mode s2 = mode s1" using detect_model_mode[OF d2] .
  show ?thesis
  proof (cases q)
    case (Inl e)
    then show ?thesis using assms d2 m2 by (simp add: run_def)
  next
    case (Inr u)
    let ?combined = "fst (get_combined_unsupported UNSUPPORTED uf)"
    let ?s2 = "s2\<lparr>trace := trace s2 @ snd (get_combined_unsupported UNSUPPORTED uf)\<rparr>"
    obtain q3 s3 where c: "check_features client ?combined features ?s2 = (q3, s3)"
      by (cases "check_features client ?combined features ?s2")
    have "s' = s3" using assms d2 Inr c
      by (auto simp: run_def split: prod.splits sum.splits)
    then show ?thesis using check_features_skip[OF c] m2 by simp
  qed
qed

lemma parse_mode_table:
  "(\<forall>md. (lower (py_str (extract_raw_mode raw)), md) \<in> set MODE_MAP \<longrightarrow> parse_mode raw = md) \<and>
   (lower (py_str (extract_raw_mode raw)) \<notin> fst ` set MODE_MAP \<longrightarrow> parse_mode raw = DEFAULT)"
proof -
  have d: "distinct (map fst MODE_MAP)" by (simp add: MODE_MAP_def)
  show ?thesis
    unfolding parse_mode_def
    by (auto simp: map_of_eq_None_iff[symmetric] map_of_eq_Some_iff[OF d, symmetric])
qed


text \<open>
  C9, as the code has it. When the mode query returns a response, scalar or object, the
  mode is read from the table at the lower-cased text of the raw value, \<open>Mode.DEFAULT\<close> when
  the table does not hold it, and the run keeps that mode to its end. When the query raises
  a \<open>LuciError\<close>, \<open>KeyError\<close>, \<open>ValueError\<close> or \<open>AttributeError\<close>, the run goes on with the
  mode unset (\<open>None\<close>). An exception of any other class leaves \<open>run\<close> through the mode
  detection.
\<close>

theorem mode_detection:
  assumes "client Mode_query (world s) = (out, w')"
  shows
    "(\<forall>raw. out = Returns raw \<longrightarrow>
        (\<exists>s1. detect_mode client s = (Inr (), s1) \<and> mode s1 = Some (parse_mode raw)) \<and>
        (\<forall>r s'. run mv client uf s = (r, s') \<longrightarrow> mode s' = Some (parse_mode raw)) \<and>
        (\<forall>md. (lower (py_str (extract_raw_mode raw)), md) \<in> set MODE_MAP
              \<longrightarrow> parse_mode raw = md) \<and>
        (lower (py_str (extract_raw_mode raw)) \<notin> fst ` set MODE_MAP
              \<longrightarrow> parse_mode raw = DEFAULT)) \<and>
     (\<forall>e. out = Raises e \<and>
           (is_LuciError e \<or> e = KeyError \<or> e = ValueError \<or> e = AttributeError) \<longrightarrow>
        (\<exists>s1. detect_mode client s = (Inr (), s1) \<and> mode s1 = None) \<and>
        (\<forall>r s'. run mv client uf s = (r, s') \<longrightarrow> mode s' = None)) \<and>
     (\<forall>e. out = Raises e \<and>
           \<not> (is_LuciError e \<or> e = KeyError \<or> e = ValueError \<or> e = AttributeError) \<longrightarrow>
        (\<exists>s1. run mv client uf s = (Inl e, s1)))"
proof (intro conjI allI impI)
  fix raw assume o: "out = Returns raw"
  let ?s1 = "emit (Logged Debug ''Parsed mode'')
             ((emit (Logged Debug ''Raw mode response from client'')
                 (emit (Called Mode_query) (s\<lparr>world := w'\<rparr>)))
                \<lparr>mode := Some (parse_mode raw)\<rparr>)"
  have d: "detect_mode client s = (Inr (), ?s1)"
    using assms o by (simp add: detect_mode_def call_def)
  then show "\<exists>s1. detect_mode client s = (Inr (), s1) \<and> mode s1 = Some (parse_mode raw)"
    by simp
  fix r s' assume "run mv client uf s = (r, s')"
  from run_mode[OF d this] show "mode s' = Some (parse_mode raw)" by simp
next
  fix raw md
  assume "(lower (py_str (extract_raw_mode raw)), md) \<in> set MODE_MAP"
  then show "parse_mode raw = md" using parse_mode_table by blast
next
  fix raw
  assume "lower (py_str (extract_raw_mode raw)) \<notin> fst ` set MODE_MAP"
  then show "parse_mode raw = DEFAULT" using parse_mode_table by blast
next
  fix e
  assume o: "out = Raises e \<and>
           (is_LuciError e \<or> e = KeyError \<or> e = ValueError \<or> e = AttributeError)"
  let ?s1 = "(emit (Logged Debug ''Could not detect mode'')
               (emit (Called Mode_query) (s\<lparr>world := w'\<rparr>)))\<lparr>mode := None\<rparr>"
  have d: "detect_mode client s = (Inr (), ?s1)"
    using assms o by (auto simp: detect_mode_def call_def)
  then show "\<exists>s1. detect_mode client s = (Inr (), s1) \<and> mode s1 = None" by simp
  fix r s' assume "run mv client uf s = (r, s')"
  from run_mode[OF d this] show "mode s' = None" by simp
next
  fix e
  assume o: "out = Raises e \<and>
           \<not> (is_LuciError e \<or> e = KeyError \<or> e = ValueError \<or> e = AttributeError)"
  then have "detect_mode client s = (Inl e, emit (Called Mode_query) (s\<lparr>world := w'\<rparr>))"
    using assms by (auto simp: detect_mode_def call_def)
  then show "\<exists>s1. run mv client uf s = (Inl e, s1)" by (simp add: run_def)
qed

lemma mode_keys:
  "lower (py_str (extract_raw_mode (PDict [(''netmode'', PStr ''Mesh'')]))) = ''mesh''"
  "lower (py_str (extract_raw_mode (PDict [(''mode'', PInt 7)]))) = ''7''"
  by code_simp+

theorem mode_detection_witness:
  "(\<exists>s1. detect_mode mesh_client (init_checker () 5) = (Inr (), s1) \<and> mode s1 = Some MESH) \<and>
   (\<exists>s1. detect_mode unknown_mode_client (init_checker () 5) = (Inr (), s1) \<and>
         mode s1 = Some DEFAULT) \<and>
   (\<exists>s1. detect_mode mode_error_client (init_checker () 5) = (Inr (), s1) \<and> mode s1 = None) \<and>
   (\<exists>s1. run lowercase_values mode_crash_client None (init_checker () 5)
           = (Inl OtherException, s1))"
proof (intro conjI)
  let ?s = "init_checker () 5"
  have c: "mesh_client Mode_query (world ?s) = (Returns (PDict [(''netmode'', PStr ''Mesh'')]), ())"
    by (simp add: mesh_client_def)
  have k: "(lower (py_str (extract_raw_mode (PDict [(''netmode'', PStr ''Mesh'')]))), MESH)
             \<in> set MODE_MAP"
    by (simp add: mode_keys MODE_MAP_def)
  from mode_detection[where client=mesh_client and s="?s" and mv=lowercase_values and uf=None, OF c,
      THEN conjunct1, rule_format, OF refl] k
  show "\<exists>s1. detect_mode mesh_client ?s = (Inr (), s1) \<and> mode s1 = Some MESH"
    by metis
next
  let ?s = "init_checker () 5"
  have c: "unknown_mode_client Mode_query (world ?s) = (Returns (PDict [(''mode'', PInt 7)]), ())"
    by (simp add: unknown_mode_client_def)
  have k: "lower (py_str (extract_raw_mode (PDict [(''mode'', PInt 7)]))) \<notin> fst ` set MODE_MAP"
    by (simp add: mode_keys MODE_MAP_def)
  from mode_detection[where client=unknown_mode_client and s="?s" and mv=lowercase_values and uf=None, OF c,
      THEN conjunct1, rule_format, OF refl] k
  show "\<exists>s1. detect_mode unknown_mode_client ?s = (Inr (), s1) \<and> mode s1 = Some DEFAULT"
    by metis
next
  let ?s = "init_checker () 5"
  have c: "mode_error_client Mode_query (world ?s) = (Raises LuciError, ())"
    by (simp add: mode_error_client_def)
  have k: "Raises LuciError = (Raises LuciError :: pyval outcome) \<and>
           (is_LuciError LuciError \<or> LuciError = KeyError \<or> LuciError = ValueError
            \<or> LuciError = AttributeError)"
    by (simp add: is_LuciError_def)
  from mode_detection[where client=mode_error_client and s="?s" and mv=lowercase_values and uf=None, OF c,
      THEN conjunct2, THEN conjunct1,
      rule_format, OF k]
  show "\<exists>s1. detect_mode mode_error_client ?s = (Inr (), s1) \<and> mode s1 = None"
    by blast
next
  let ?s = "init_checker () 5"
  have c: "mode_crash_client Mode_query (world ?s) = (Raises OtherException, ())"
    by (simp add: mode_crash_client_def)
  have k: "Raises OtherException = (Raises OtherException :: pyval outcome) \<and>
           \<not> (is_LuciError OtherException \<or> OtherException = KeyError
              \<or> OtherException = ValueError \<or> OtherException = AttributeError)"
    by (simp add: is_LuciError_def)
  from mode_detection[where client=mode_crash_client and s="?s" and mv=lowercase_values and uf=None, OF c,
      THEN conjunct2, THEN conjunct2,
      rule_format, OF k]
  show "\<exists>s1. run lowercase_values mode_crash_client None ?s = (Inl OtherException, s1)" .
qed

text \<open>
  A mode query that raises a protocol error leaves the mode unset, not \<open>Mode.DEFAULT\<close>; one
  that raises an exception of another class ends the run with that exception.
\<close>

theorem mode_detection_counterexample:
  "\<not> isl (fst (run lowercase_values mode_error_client None (init_checker () 5))) \<and>
   mode (snd (run lowercase_values mode_error_client None (init_checker () 5))) \<noteq> Some DEFAULT \<and>
   isl (fst (run lowercase_values mode_crash_client None (init_checker () 5))) \<and>
   projl (fst (run lowercase_values mode_crash_client None (init_checker () 5))) = OtherException"
  by code_simp

section \<open>The combined registry\<close>

lemma set_merge_models: "set (merge_models acc ms) = set acc \<union> set ms"
  by (induction ms arbitrary: acc) auto

lemma models_for_update:
  "models_for (AList.update k v table) f = (if f = k then v else models_for table f)"
  by (simp add: models_for_def update_conv')

lemma models_for_Cons:
  "models_for ((k, v) # table) f = (if f = k then v else models_for table f)"
  by (simp add: models_for_def)

lemma models_for_absent: "f \<notin> fst ` set table \<Longrightarrow> models_for table f = []"
  by (simp add: models_for_def map_of_eq_None_iff[symmetric] del: map_of_eq_None_iff)

lemma merge_user_models:
  "distinct (map fst user_data) \<Longrightarrow>
   set (models_for (merge_user combined user_data) f)
     = set (models_for combined f) \<union> set (models_for user_data f)"
proof (induction user_data arbitrary: combined)
  case Nil
  then show ?case by (simp add: models_for_def)
next
  case (Cons kv rest)
  obtain key val where kv: "kv = (key, val)" by (cases kv)
  let ?c1 = "if map_of combined key = None then AList.update key [] combined else combined"
  let ?c2 = "AList.update key (merge_models (models_for ?c1 key) val) ?c1"
  have k1: "models_for ?c1 g = models_for combined g" for g
    by (auto simp: models_for_update) (simp add: models_for_def)
  have c2: "set (models_for ?c2 f) = set (models_for combined f) \<union> (if f = key then set val else {})"
    by (simp add: models_for_update[of key _ ?c1] set_merge_models k1)
  have d: "distinct (map fst rest)" "key \<notin> fst ` set rest" using Cons.prems kv by auto
  have "set (models_for (merge_user ?c2 rest) f) = set (models_for ?c2 f) \<union> set (models_for rest f)"
    using Cons.IH[OF d(1)] .
  moreover have "merge_user combined (kv # rest) = merge_user ?c2 rest"
    by (simp add: kv Let_def)
  ultimately show ?case
    using c2 models_for_absent[OF d(2)] by (auto simp: kv models_for_Cons)
qed

text \<open>
  When there is no user file, or the user file does not use the relative import, the merge
  is the union of the two layers (the table of the file, as a Python dictionary, has no key
  twice).
\<close>

lemma combined_when_loaded:
  assumes "distinct (map fst (override_layer uf))"
    and "\<forall>src. uf = Some src \<longrightarrow> \<not> relative_import src"
  shows "is_feature_unsupported builtin uf feature md
     \<longleftrightarrow> md \<in> set (models_for builtin feature) \<or> md \<in> set (models_for (override_layer uf) feature)"
proof (cases uf)
  case None
  then show ?thesis
    by (simp add: is_feature_unsupported_def get_combined_unsupported_def override_layer_def
        models_for_def)
next
  case (Some src)
  then have ex: "exec_module Top_level_name src = body src"
    using assms(2) by (simp add: exec_module_def)
  show ?thesis
  proof (cases "body src")
    case (Dict user_data)
    then have "distinct (map fst user_data)" using assms(1) Some by (simp add: override_layer_def)
    from merge_user_models[OF this, of builtin feature] show ?thesis
      using Some Dict ex
      by (simp add: is_feature_unsupported_def get_combined_unsupported_def override_layer_def)
  qed (simp_all add: Some ex is_feature_unsupported_def get_combined_unsupported_def
        override_layer_def models_for_def)
qed

lemma hand_written_combined:
  "is_feature_unsupported UNSUPPORTED hand_written_file ''mac_filter'' (Model ''R3'') \<and>
   is_feature_unsupported UNSUPPORTED hand_written_file ''mac_filter'' (Model ''RM1800'') \<and>
   \<not> is_feature_unsupported UNSUPPORTED hand_written_file ''led_control'' (Model ''R3'')"
  by code_simp

text \<open>
  C7. The file the service writes when it adds R3 under \<open>mac_filter\<close> holds R3 in its list
  for \<open>mac_filter\<close>, and \<open>is_feature_unsupported\<close> is \<open>False\<close> for that pair: the registry
  loads the file under a name without parent package, the relative import raises, and the
  override layer is left out of the merge.
\<close>

theorem written_pair_not_unsupported:
  "snd (async_call_service named_in_sources UNSUPPORTED True ''mac_filter'' ''R3'' None)
     = service_file \<and>
   Model ''R3'' \<in> set (models_for (override_layer service_file) ''mac_filter'') \<and>
   Model ''R3'' \<notin> set (models_for UNSUPPORTED ''mac_filter'') \<and>
   \<not> is_feature_unsupported UNSUPPORTED service_file ''mac_filter'' (Model ''R3'')"
  by code_simp

section \<open>Adding an unsupported pair\<close>

text \<open>
  C8. On an installation without user file, the service adds R3 under \<open>mac_filter\<close>: it
  reports the addition and writes the file. A second call with the same pair reports that
  the pair already exists and leaves the file, with its one R3, as it is. The combined
  registry, which loads the file under a name without parent package, cannot execute the
  relative import the service wrote: it logs the error and does not include R3.
\<close>

theorem added_pair_not_combined:
  "async_call_service named_in_sources UNSUPPORTED True ''mac_filter'' ''R3'' None
     = (Added, Some \<lparr> relative_import = True, body = Dict [(''mac_filter'', [Model ''R3''])] \<rparr>) \<and>
   async_call_service named_in_sources UNSUPPORTED True ''mac_filter'' ''R3''
       (Some \<lparr> relative_import = True, body = Dict [(''mac_filter'', [Model ''R3''])] \<rparr>)
     = (Already_exists,
        Some \<lparr> relative_import = True, body = Dict [(''mac_filter'', [Model ''R3''])] \<rparr>) \<and>
   get_combined_unsupported UNSUPPORTED
       (Some \<lparr> relative_import = True, body = Dict [(''mac_filter'', [Model ''R3''])] \<rparr>)
     = (UNSUPPORTED, [Logged Debug ''Error loading unsupported_user.py'']) \<and>
   Model ''R3'' \<notin> set (models_for UNSUPPORTED ''mac_filter'') \<and>
   \<not> is_feature_unsupported UNSUPPORTED
       (Some \<lparr> relative_import = True, body = Dict [(''mac_filter'', [Model ''R3''])] \<rparr>)
       ''mac_filter'' (Model ''R3'')"
  by code_simp

section \<open>The liveness check\<close>

text \<open>
  C6. The liveness check of an address gives \<open>False\<close> when the topology query to the address
  raises a connection error, and \<open>True\<close> when it raises a protocol error or returns a
  response.
\<close>

theorem check_ip_address_alive:
  assumes "luci ip_address Check_timeout (net_world s) = (out, w')"
  shows "(out = Raises LuciConnectionError \<longrightarrow> fst (async_check_ip_address luci ip_address s) = Inr False) \<and>
         (out = Raises LuciError \<longrightarrow> fst (async_check_ip_address luci ip_address s) = Inr True) \<and>
         (\<forall>response. out = Returns response \<longrightarrow> fst (async_check_ip_address luci ip_address s) = Inr True)"
  using assms
  by (simp add: async_check_ip_address_def topo_graph_def is_LuciError_def)

theorem check_ip_address_alive_witness:
  "fst (async_check_ip_address example_luci ''10.0.0.9'' (init_net ())) = Inr False \<and>
   fst (async_check_ip_address example_luci ''10.0.0.8'' (init_net ())) = Inr True \<and>
   fst (async_check_ip_address example_luci ''10.0.0.1'' (init_net ())) = Inr True"
proof -
  have a: "example_luci ''10.0.0.9'' Check_timeout (net_world (init_net ())) = (Raises LuciConnectionError, ())"
    and b: "example_luci ''10.0.0.8'' Check_timeout (net_world (init_net ())) = (Raises LuciError, ())"
    and c: "example_luci ''10.0.0.1'' Check_timeout (net_world (init_net ())) = (Returns example_topology, ())"
    by (simp_all add: example_luci_def)
  show ?thesis
    using check_ip_address_alive[where luci=example_luci and s="init_net ()", OF a]
      check_ip_address_alive[where luci=example_luci and s="init_net ()", OF b]
      check_ip_address_alive[where luci=example_luci and s="init_net ()", OF c]
    by simp
qed


section \<open>The walk over the topology\<close>

lemma subseq_distinct: "subseq xs ys \<Longrightarrow> distinct ys \<Longrightarrow> distinct xs"
proof (induction rule: list_emb.induct)
  case (list_emb_Nil ys)
  then show ?case by simp
next
  case (list_emb_Cons xs ys y)
  then show ?case by simp
next
  case (list_emb_Cons2 x y xs ys)
  then show ?case using list_emb_set[of "(=)" xs ys] by auto
qed

lemma prepare_leafs_subseq:
  "async_prepare_leafs luci devices leafs s = (Inr ds, s') \<Longrightarrow>
   \<exists>new. ds = devices @ new \<and> subseq new (leafs_addresses leafs)"
proof (induction luci devices leafs s arbitrary: ds s' rule: async_prepare_leafs.induct)
  case (1 luci devices s)
  then show ?case by simp
next
  case (2 luci devices ip hw sub rest s)
  show ?case
  proof (cases "leaf_skipped ip hw")
    case True
    then have "async_prepare_leafs luci devices rest s = (Inr ds, s')" using "2.prems" by simp
    from "2.IH"(1)[OF True this] show ?thesis using True by simp
  next
    case False
    let ?a = "strip (the ip)"
    obtain q s1 where c: "async_check_ip_address luci ?a s = (q, s1)"
      by (cases "async_check_ip_address luci ?a s")
    then obtain alive where q: "q = Inr alive"
      using "2.prems" False by (cases q) auto
    let ?d1 = "if alive then devices @ [?a] else devices"
    let ?n0 = "if alive then [?a] else []"
    have d1: "?d1 = devices @ ?n0" by simp
    have n0: "subseq ?n0 [?a]" by simp
    show ?thesis
    proof (cases "\<exists>c cs. sub = Some (c # cs)")
      case False
      then have sb: "sub = None \<or> sub = Some []" by (cases sub; cases "the sub") auto
      then have "async_prepare_leafs luci ?d1 rest s1 = (Inr ds, s')"
        using "2.prems" \<open>\<not> leaf_skipped ip hw\<close> c q by (auto simp: Let_def)
      moreover have "\<exists>new. ds = ?d1 @ new \<and> subseq new (leafs_addresses rest)"
        if "async_prepare_leafs luci ?d1 rest s1 = (Inr ds, s')"
        using sb "2.IH"(2)[OF \<open>\<not> leaf_skipped ip hw\<close> c[symmetric] q refl _ that]
          "2.IH"(3)[OF \<open>\<not> leaf_skipped ip hw\<close> c[symmetric] q refl _ _ that]
        by auto
      ultimately obtain new where new: "ds = ?d1 @ new" "subseq new (leafs_addresses rest)"
        by blast
      have "subseq (?n0 @ new) ([?a] @ ((case sub of None \<Rightarrow> [] | Some cs \<Rightarrow> leafs_addresses cs)
                 @ leafs_addresses rest))"
        using sb new(2) n0 by (intro list_emb_append_mono) auto
      then show ?thesis using new(1) \<open>\<not> leaf_skipped ip hw\<close> by (auto simp: d1)
    next
      case True
      then obtain c0 cs where sb: "sub = Some (c0 # cs)" by blast
      obtain q2 s2 where i: "async_prepare_leafs luci ?d1 (c0 # cs) s1 = (q2, s2)"
        by (cases "async_prepare_leafs luci ?d1 (c0 # cs) s1")
      then obtain d2 where q2: "q2 = Inr d2"
        using "2.prems" \<open>\<not> leaf_skipped ip hw\<close> c q sb by (cases q2) (auto simp: Let_def)
      have o: "async_prepare_leafs luci d2 rest s2 = (Inr ds, s')"
        using "2.prems" \<open>\<not> leaf_skipped ip hw\<close> c q sb i q2 by (auto simp: Let_def)
      from "2.IH"(4)[OF \<open>\<not> leaf_skipped ip hw\<close> c[symmetric] q refl sb refl] i q2
      obtain n1 where n1: "d2 = ?d1 @ n1" "subseq n1 (leafs_addresses (c0 # cs))" by blast
      from "2.IH"(5)[OF \<open>\<not> leaf_skipped ip hw\<close> c[symmetric] q refl sb refl i[symmetric] q2 o]
      obtain n2 where n2: "ds = d2 @ n2" "subseq n2 (leafs_addresses rest)" by blast
      have "subseq (?n0 @ (n1 @ n2)) ([?a] @ (leafs_addresses (c0 # cs) @ leafs_addresses rest))"
        using n0 n1(2) n2(2) by (intro list_emb_append_mono) auto
      then show ?thesis using n1(1) n2(1) sb \<open>\<not> leaf_skipped ip hw\<close> by (auto simp: d1)
    qed
  qed
qed


text \<open>
  C4, as the code has it. The list \<open>async_discover_devices\<close> returns is a subsequence of the
  addresses the winning response puts forward, in the order of the walk, each leaf
  contributing at most once per occurrence. It has no duplicates when those addresses,
  stripped of white space, are pairwise distinct; the walk itself removes none.
\<close>

theorem discovered_devices_subseq:
  assumes "root_response luci addresses s = (Inr response, s1)"
    and "async_discover_devices luci addresses s = (Inr devices, s')"
  shows "subseq devices (response_addresses response) \<and>
         (distinct (response_addresses response) \<longrightarrow> distinct devices)"
proof -
  have sub: "subseq devices (response_addresses response)"
  proof (cases "response_graph response")
    case None
    then show ?thesis using assms by (simp add: async_discover_devices_def response_addresses_def)
  next
    case (Some g)
    show ?thesis
    proof (cases "graph_ip g")
      case None
      then show ?thesis using assms Some
        by (simp add: async_discover_devices_def response_addresses_def)
    next
      case ip: (Some ip)
      show ?thesis
      proof (cases "length ip = 0")
        case True
        then show ?thesis using assms Some ip
          by (simp add: async_discover_devices_def response_addresses_def)
      next
        case False
        obtain q s2 where c: "async_check_ip_address luci (strip ip) s1 = (q, s2)"
          by (cases "async_check_ip_address luci (strip ip) s1")
        then obtain alive where q: "q = Inr alive"
          using assms Some ip False by (cases q) (auto simp: async_discover_devices_def)
        let ?d = "if alive then [strip ip] else []"
        show ?thesis
        proof (cases "graph_leafs g")
          case None
          then have "devices = ?d"
            using assms Some ip False c q
            by (auto simp: async_discover_devices_def found_def Let_def)
          then show ?thesis using Some ip False None by (simp add: response_addresses_def)
        next
          case leafs: (Some leafs)
          obtain q3 s3 where p: "async_prepare_leafs luci ?d leafs s2 = (q3, s3)"
            by (cases "async_prepare_leafs luci ?d leafs s2")
          then have "q3 = Inr devices"
            using assms Some ip False c q leafs
            by (cases q3) (auto simp: async_discover_devices_def found_def Let_def)
          with p prepare_leafs_subseq[of luci ?d leafs s2 devices s3]
          obtain new where new: "devices = ?d @ new" "subseq new (leafs_addresses leafs)" by blast
          have "subseq (?d @ new) ([strip ip] @ leafs_addresses leafs)"
            using new(2) by (intro list_emb_append_mono) auto
          then show ?thesis using new(1) Some ip False leafs
            by (simp add: response_addresses_def)
        qed
      qed
    qed
  qed
  then show ?thesis using subseq_distinct by blast
qed

lemma scenario_root:
  "root_response scenario_luci [''10.0.0.1''] (init_net ())
     = (Inr scenario_topology,
        \<lparr> net_world = (), net_trace = [Queried ''10.0.0.1'' Default_timeout] \<rparr>)"
  by (simp add: scenario_luci_def topo_graph_def init_net_def)

lemma scenario_addresses: "response_addresses scenario_topology = [''10.0.0.1'', ''10.0.0.2'']"
  by code_simp

lemma scenario_discovered:
  "fst (async_discover_devices scenario_luci [''10.0.0.1''] (init_net ()))
     = Inr [''10.0.0.1'', ''10.0.0.2'']"
  by code_simp

theorem discovered_devices_subseq_witness:
  "distinct (response_addresses scenario_topology) \<and>
   fst (async_discover_devices scenario_luci [''10.0.0.1''] (init_net ()))
     = Inr [''10.0.0.1'', ''10.0.0.2''] \<and>
   subseq [''10.0.0.1'', ''10.0.0.2''] (response_addresses scenario_topology) \<and>
   distinct [''10.0.0.1'', ''10.0.0.2'']"
proof -
  obtain s' where d: "async_discover_devices scenario_luci [''10.0.0.1''] (init_net ())
      = (Inr [''10.0.0.1'', ''10.0.0.2''], s')"
    using scenario_discovered
    by (cases "async_discover_devices scenario_luci [''10.0.0.1''] (init_net ())") auto
  have h: "distinct (response_addresses scenario_topology)"
    by (simp add: scenario_addresses)
  from discovered_devices_subseq[OF scenario_root d] h scenario_discovered
  show ?thesis by blast
qed

text \<open>
  In the first network \<open>10.0.0.3\<close> is reported in two branches, answers the liveness check,
  and is returned twice.
\<close>

theorem discovered_devices_counterexample:
  "fst (async_discover_devices example_luci [''10.0.0.1''] (init_net ()))
     = Inr [''10.0.0.1'', ''10.0.0.2'', ''10.0.0.3'', ''10.0.0.3''] \<and>
   \<not> distinct (projr (fst (async_discover_devices example_luci [''10.0.0.1''] (init_net ()))))"
  by code_simp

section \<open>The candidate roots\<close>

lemma fails_through_Cons:
  assumes "fails_through luci (b # pre) ws"
  obtains w0 ws1 e where "ws = w0 # ws1" "fails_through luci pre ws1"
    "luci b Default_timeout w0 = (Raises e, hd ws1)" "is_LuciError e" "ws1 \<noteq> []"
proof -
  from assms have len: "length ws = Suc (Suc (length pre))"
    and all: "\<forall>i < Suc (length pre).
         case luci ((b # pre) ! i) Default_timeout (ws ! i) of
           (Raises e, w') \<Rightarrow> is_LuciError e \<and> w' = ws ! Suc i
         | (Returns response, w') \<Rightarrow> False"
    by (simp_all add: fails_through_def)
  from len obtain w0 ws1 where ws: "ws = w0 # ws1" and l1: "length ws1 = Suc (length pre)"
    by (cases ws) auto
  then have ne: "ws1 \<noteq> []" by auto
  from all[rule_format, of 0] ws ne
  obtain e where e: "luci b Default_timeout w0 = (Raises e, hd ws1)" "is_LuciError e"
    by (auto simp: hd_conv_nth split: prod.splits outcome.splits)
  have "fails_through luci pre ws1"
    unfolding fails_through_def
  proof (intro conjI allI impI)
    show "length ws1 = Suc (length pre)" by (rule l1)
    fix i assume "i < length pre"
    then have "Suc i < Suc (length pre)" by simp
    from all[rule_format, OF this] ws
    show "case luci (pre ! i) Default_timeout (ws1 ! i) of
           (Raises e, w') \<Rightarrow> is_LuciError e \<and> w' = ws1 ! Suc i
         | (Returns response, w') \<Rightarrow> False"
      by (auto split: prod.splits outcome.splits)
  qed
  with ws e ne show ?thesis using that by blast
qed

lemma root_response_through:
  "fails_through luci pre ws \<Longrightarrow> hd ws = net_world s \<Longrightarrow>
   root_response luci (pre @ rest) s =
     root_response luci rest
       \<lparr> net_world = last ws, net_trace = net_trace s @ root_queries pre \<rparr>"
proof (induction pre arbitrary: s ws)
  case Nil
  then obtain w where w: "ws = [w]" by (cases ws) (auto simp: fails_through_def)
  have eq: "\<lparr> net_world = net_world s, net_trace = net_trace s \<rparr> = s"
    by (cases s) simp
  show ?case using Nil(2) w by (simp add: root_queries_def eq)
next
  case (Cons b pre)
  from Cons.prems(1) obtain w0 ws1 e where ws: "ws = w0 # ws1"
    and f: "fails_through luci pre ws1"
    and l: "luci b Default_timeout w0 = (Raises e, hd ws1)" and e: "is_LuciError e"
    and ne: "ws1 \<noteq> []"
    by (rule fails_through_Cons)
  let ?s0 = "\<lparr> net_world = hd ws1, net_trace = net_trace s @ [Queried b Default_timeout] \<rparr>"
  have w0: "w0 = net_world s" using Cons.prems(2) ws by simp
  have "root_response luci ((b # pre) @ rest) s = root_response luci (pre @ rest) ?s0"
    using l e w0 by (simp add: topo_graph_def)
  also have "\<dots> = root_response luci rest
       \<lparr> net_world = last ws1, net_trace = net_trace ?s0 @ root_queries pre \<rparr>"
    by (rule Cons.IH[OF f]) simp
  finally show ?case using ws ne by (simp add: root_queries_def)
qed

lemma discover_by_root_response:
  "root_response luci xs s = root_response luci ys s \<Longrightarrow>
   async_discover_devices luci xs s = async_discover_devices luci ys s"
  by (simp add: async_discover_devices_def)


text \<open>
  C5, as the code has it. The candidates are queried in their order, each in the state the
  queries before it have left. After a run of candidates whose queries each raise a
  \<open>LuciError\<close>: a next candidate whose query returns gives the response, well-formed or not,
  and the candidates after it are not queried (the call does what it does without them);
  when that response is not well-formed the result is the empty list, after the root
  queries alone. A next candidate whose query raises an exception that is not a \<open>LuciError\<close>
  ends the discovery with that exception. When there is no next candidate, every candidate
  having raised a \<open>LuciError\<close>, the result is the empty list, after one query to each.
\<close>

theorem candidate_roots:
  assumes "fails_through luci pre ws" and "hd ws = net_world s"
  shows
    "(\<forall>response w'. luci a Default_timeout (last ws) = (Returns response, w') \<longrightarrow>
        root_response luci (pre @ a # post) s
          = (Inr response,
             \<lparr> net_world = w', net_trace = net_trace s @ root_queries (pre @ [a]) \<rparr>) \<and>
        async_discover_devices luci (pre @ a # post) s
          = async_discover_devices luci (pre @ [a]) s \<and>
        (\<not> well_formed response \<longrightarrow>
           async_discover_devices luci (pre @ a # post) s
             = (Inr [],
                \<lparr> net_world = w', net_trace = net_trace s @ root_queries (pre @ [a]) \<rparr>))) \<and>
     (\<forall>e w'. luci a Default_timeout (last ws) = (Raises e, w') \<and> \<not> is_LuciError e \<longrightarrow>
        async_discover_devices luci (pre @ a # post) s
          = (Inl e, \<lparr> net_world = w', net_trace = net_trace s @ root_queries (pre @ [a]) \<rparr>)) \<and>
     async_discover_devices luci pre s
       = (Inr [], \<lparr> net_world = last ws, net_trace = net_trace s @ root_queries pre \<rparr>)"
proof -
  let ?s1 = "\<lparr> net_world = last ws, net_trace = net_trace s @ root_queries pre \<rparr>"
  have skip: "root_response luci (pre @ rest) s = root_response luci rest ?s1" for rest
    using root_response_through[OF assms] .
  have tr: "net_trace s @ root_queries pre @ [Queried a Default_timeout]
              = net_trace s @ root_queries (pre @ [a])"
    by (simp add: root_queries_def)
  show ?thesis
  proof (intro conjI allI impI)
    fix response w'
    assume r: "luci a Default_timeout (last ws) = (Returns response, w')"
    let ?s2 = "\<lparr> net_world = w', net_trace = net_trace s @ root_queries (pre @ [a]) \<rparr>"
    have win: "root_response luci (pre @ a # rest) s = (Inr response, ?s2)" for rest
      using skip[of "a # rest"] r tr by (simp add: topo_graph_def)
    show "root_response luci (pre @ a # post) s = (Inr response, ?s2)" by (rule win)
    have "root_response luci (pre @ a # post) s = root_response luci (pre @ [a]) s"
      using win[of post] win[of "[]"] by simp
    then show "async_discover_devices luci (pre @ a # post) s
                 = async_discover_devices luci (pre @ [a]) s"
      by (rule discover_by_root_response)
    assume "\<not> well_formed response"
    then show "async_discover_devices luci (pre @ a # post) s = (Inr [], ?s2)"
      using win[of post]
      by (auto simp: async_discover_devices_def well_formed_def split: option.splits)
  next
    fix e w'
    assume r: "luci a Default_timeout (last ws) = (Raises e, w') \<and> \<not> is_LuciError e"
    let ?s2 = "\<lparr> net_world = w', net_trace = net_trace s @ root_queries (pre @ [a]) \<rparr>"
    have "root_response luci (pre @ a # post) s = (Inl e, ?s2)"
      using skip[of "a # post"] r tr by (simp add: topo_graph_def)
    then show "async_discover_devices luci (pre @ a # post) s = (Inl e, ?s2)"
      by (simp add: async_discover_devices_def)
  next
    have "root_response luci pre s = (Inr (Response None), ?s1)"
      using skip[of "[]"] by simp
    then show "async_discover_devices luci pre s = (Inr [], ?s1)"
      by (simp add: async_discover_devices_def)
  qed
qed

lemma example_fails_through:
  "fails_through waking_luci [''miwifi.com''] [0, 1]"
  "fails_through example_luci [''10.0.0.9'', ''10.0.0.8''] [(), (), ()]"
  "fails_through crash_luci [''10.0.0.9''] [(), ()]"
  by (simp_all add: fails_through_def waking_luci_def example_luci_def crash_luci_def
      is_LuciError_def less_Suc_eq)

lemma waking_discovered:
  "fst (async_discover_devices waking_luci [''miwifi.com'', ''10.0.0.1''] (init_net 0))
     = Inr [''10.0.0.1'', ''10.0.0.2'']"
  by code_simp

theorem candidate_roots_witness:
  "async_discover_devices waking_luci [''miwifi.com'', ''10.0.0.1'', ''192.168.31.1''] (init_net 0)
     = async_discover_devices waking_luci [''miwifi.com'', ''10.0.0.1''] (init_net 0) \<and>
   fst (async_discover_devices waking_luci [''miwifi.com'', ''10.0.0.1'', ''192.168.31.1'']
          (init_net 0))
     = Inr [''10.0.0.1'', ''10.0.0.2''] \<and>
   async_discover_devices example_luci
       [''10.0.0.9'', ''10.0.0.8'', ''miwifi.com'', ''10.0.0.1''] (init_net ())
     = (Inr [], \<lparr> net_world = (),
                  net_trace = root_queries [''10.0.0.9'', ''10.0.0.8'', ''miwifi.com''] \<rparr>) \<and>
   async_discover_devices crash_luci [''10.0.0.9'', ''10.0.0.7'', ''10.0.0.1''] (init_net ())
     = (Inl OtherException,
        \<lparr> net_world = (), net_trace = root_queries [''10.0.0.9'', ''10.0.0.7''] \<rparr>) \<and>
   async_discover_devices example_luci [''10.0.0.9'', ''10.0.0.8''] (init_net ())
     = (Inr [], \<lparr> net_world = (),
                  net_trace = root_queries [''10.0.0.9'', ''10.0.0.8''] \<rparr>)"
proof (intro conjI)
  have h: "hd [0, 1] = net_world (init_net (0::nat))" by (simp add: init_net_def)
  have r: "waking_luci ''10.0.0.1'' Default_timeout (last [0, 1]) = (Returns scenario_topology, 2)"
    by (simp add: waking_luci_def)
  note c = candidate_roots[where luci=waking_luci and pre="[''miwifi.com'']" and ws="[0, 1]"
      and s="init_net 0" and a="''10.0.0.1''" and post="[''192.168.31.1'']",
      OF example_fails_through(1) h, THEN conjunct1, rule_format, OF r]
  from c show e: "async_discover_devices waking_luci
         [''miwifi.com'', ''10.0.0.1'', ''192.168.31.1''] (init_net 0)
     = async_discover_devices waking_luci [''miwifi.com'', ''10.0.0.1''] (init_net 0)"
    by simp
  show "fst (async_discover_devices waking_luci [''miwifi.com'', ''10.0.0.1'', ''192.168.31.1'']
          (init_net 0))
     = Inr [''10.0.0.1'', ''10.0.0.2'']"
    by (simp only: e waking_discovered)
next
  have h: "hd [(), (), ()] = net_world (init_net ())" by simp
  have r: "example_luci ''miwifi.com'' Default_timeout (last [(), (), ()])
             = (Returns (Response None), ())"
    by (simp add: example_luci_def)
  have n: "\<not> well_formed (Response None)" by (simp add: well_formed_def)
  from candidate_roots[where luci=example_luci and pre="[''10.0.0.9'', ''10.0.0.8'']"
      and ws="[(), (), ()]" and s="init_net ()" and a="''miwifi.com''" and post="[''10.0.0.1'']",
      OF example_fails_through(2) h, THEN conjunct1, rule_format, OF r,
      THEN conjunct2, THEN conjunct2, THEN mp, OF n]
  show "async_discover_devices example_luci
       [''10.0.0.9'', ''10.0.0.8'', ''miwifi.com'', ''10.0.0.1''] (init_net ())
     = (Inr [], \<lparr> net_world = (),
                  net_trace = root_queries [''10.0.0.9'', ''10.0.0.8'', ''miwifi.com''] \<rparr>)"
    by (simp add: init_net_def)
next
  have h: "hd [(), ()] = net_world (init_net ())" by simp
  have r: "crash_luci ''10.0.0.7'' Default_timeout (last [(), ()]) = (Raises OtherException, ())
           \<and> \<not> is_LuciError OtherException"
    by (simp add: crash_luci_def is_LuciError_def)
  from candidate_roots[where luci=crash_luci and pre="[''10.0.0.9'']"
      and ws="[(), ()]" and s="init_net ()" and a="''10.0.0.7''" and post="[''10.0.0.1'']",
      OF example_fails_through(3) h, THEN conjunct2, THEN conjunct1, rule_format, OF r]
  show "async_discover_devices crash_luci [''10.0.0.9'', ''10.0.0.7'', ''10.0.0.1''] (init_net ())
     = (Inl OtherException,
        \<lparr> net_world = (), net_trace = root_queries [''10.0.0.9'', ''10.0.0.7''] \<rparr>)"
    by (simp add: init_net_def)
next
  have h: "hd [(), (), ()] = net_world (init_net ())" by simp
  from candidate_roots[where luci=example_luci and pre="[''10.0.0.9'', ''10.0.0.8'']"
      and ws="[(), (), ()]" and s="init_net ()",
      OF example_fails_through(2) h, THEN conjunct2, THEN conjunct2]
  show "async_discover_devices example_luci [''10.0.0.9'', ''10.0.0.8''] (init_net ())
     = (Inr [], \<lparr> net_world = (),
                  net_trace = root_queries [''10.0.0.9'', ''10.0.0.8''] \<rparr>)"
    by (simp add: init_net_def)
qed

text \<open>
  In the first network \<open>miwifi.com\<close> answers the root query with an object without \<open>graph\<close>
  and \<open>10.0.0.1\<close> with a well-formed descriptor. With the candidates in this order the
  result is empty, and \<open>10.0.0.1\<close> is never queried.
\<close>

theorem candidate_roots_counterexample:
  "fst (example_luci ''miwifi.com'' Default_timeout ()) = Returns (Response None) \<and>
   \<not> well_formed (Response None) \<and>
   fst (example_luci ''10.0.0.1'' Default_timeout ()) = Returns example_topology \<and>
   well_formed example_topology \<and>
   fst (async_discover_devices example_luci [''miwifi.com'', ''10.0.0.1''] (init_net ()))
     = Inr [] \<and>
   net_trace (snd (async_discover_devices example_luci [''miwifi.com'', ''10.0.0.1''] (init_net ())))
     = [Queried ''miwifi.com'' Default_timeout]"
  by code_simp

end
